theory Spec2Isabelle
  imports Main "HOL-Library.Multiset"
begin

section \<open>Tables\<close>

text \<open>
  A pandas DataFrame as the wizard uses it: the column labels, in order, and the rows,
  each row holding one cell per column. Cells are a tagged variant; floating point
  numbers are left out.
\<close>

datatype cell = Null | Num int | Text string | Bool bool

record dataframe =
  columns :: "string list"
  rows :: "cell list list"

text \<open>The four entries of the "Join Type" selectbox (line 88).\<close>

datatype join_kind = inner | left | right | outer

text \<open>The exceptions that the script can meet.\<close>

datatype exn = KeyError | MergeError | LoadError

section \<open>Python dictionaries\<close>

text \<open>
  A dict keeps its keys in insertion order, and \<open>list(d.keys())\<close> reads that order, so a
  dict is an association list. Storing under a key that is present replaces the value
  where it stands; a new key goes to the end.
\<close>

fun dict_set :: "('k \<times> 'v) list \<Rightarrow> 'k \<Rightarrow> 'v \<Rightarrow> ('k \<times> 'v) list" where
  "dict_set [] k v = [(k, v)]"
| "dict_set ((k', v') # d) k v =
     (if k' = k then (k, v) # d else (k', v') # dict_set d k v)"

text \<open>The dict comprehension \<open>{k: v for ...}\<close>: the pairs are stored one after the other.\<close>

definition dict_of :: "('k \<times> 'v) list \<Rightarrow> ('k \<times> 'v) list" where
  "dict_of kvs = foldl (\<lambda>d (k, v). dict_set d k v) [] kvs"

text \<open>
  \<open>d[k]\<close> raises KeyError when the key is missing. The key may be \<open>None\<close> (what a
  selectbox without options returns), which is never a sheet name.
\<close>

definition dict_get :: "(string \<times> 'v) list \<Rightarrow> string option \<Rightarrow> exn + 'v" where
  "dict_get d k =
     (case k of
        None \<Rightarrow> Inl KeyError
      | Some n \<Rightarrow> (case map_of d n of None \<Rightarrow> Inl KeyError | Some v \<Rightarrow> Inr v))"

section \<open>The join engine\<close>

text \<open>
  Modelled from the spec: the merge itself is \<open>pandas.merge\<close>, called at line 93; its code
  is a library's and is not part of the sources. This section is the join of section 4.2
  of the specification, built from the parts below: the position of a column, the cell of
  a row at a position, the kinds of the key values, the output columns and the rows that
  each kind of join keeps.
\<close>

fun index_of :: "'a list \<Rightarrow> 'a \<Rightarrow> nat option" where
  "index_of [] x = None"
| "index_of (y # ys) x = (if y = x then Some 0 else map_option Suc (index_of ys x))"

definition cell_at :: "cell list \<Rightarrow> nat \<Rightarrow> cell" where
  "cell_at r i = (if i < length r then r ! i else Null)"

definition drop_nth :: "nat \<Rightarrow> 'a list \<Rightarrow> 'a list" where
  "drop_nth i xs = take i xs @ drop (Suc i) xs"

datatype kind = KNum | KText | KBool

fun kind_of :: "cell \<Rightarrow> kind option" where
  "kind_of Null = None"
| "kind_of (Num _) = Some KNum"
| "kind_of (Text _) = Some KText"
| "kind_of (Bool _) = Some KBool"

definition key_kinds :: "nat \<Rightarrow> cell list list \<Rightarrow> kind list" where
  "key_kinds i rs = List.map_filter (\<lambda>r. kind_of (cell_at r i)) rs"

text \<open>
  Two key columns are incompatible when both hold values and no kind of value occurs on
  both sides, so that no left key can equal a right key.
\<close>

definition incompatible :: "kind list \<Rightarrow> kind list \<Rightarrow> bool" where
  "incompatible ks ks' = (ks \<noteq> [] \<and> ks' \<noteq> [] \<and> filter (\<lambda>k. k \<in> set ks') ks = [])"

definition merged_columns :: "string list \<Rightarrow> string list \<Rightarrow> string list" where
  "merged_columns lc rc =
     map (\<lambda>c. if c \<in> set rc then c @ ''_x'' else c) lc @
     map (\<lambda>c. if c \<in> set lc then c @ ''_y'' else c) rc"

text \<open>The right-hand matches of a left row, and the left-hand matches of a right row.\<close>

definition matches_of :: "nat \<Rightarrow> nat \<Rightarrow> cell list list \<Rightarrow> cell list \<Rightarrow> cell list list" where
  "matches_of li ri R l = filter (\<lambda>r. cell_at l li = cell_at r ri) R"

definition matched_by :: "nat \<Rightarrow> nat \<Rightarrow> cell list list \<Rightarrow> cell list \<Rightarrow> cell list list" where
  "matched_by li ri L r = filter (\<lambda>l. cell_at l li = cell_at r ri) L"

definition inner_rows ::
  "nat \<Rightarrow> nat \<Rightarrow> (cell list \<Rightarrow> cell list) \<Rightarrow> cell list list \<Rightarrow> cell list list \<Rightarrow> cell list list"
where
  "inner_rows li ri rpart L R =
     concat (map (\<lambda>l. map (\<lambda>r. l @ rpart r) (matches_of li ri R l)) L)"

definition left_rows ::
  "nat \<Rightarrow> nat \<Rightarrow> (cell list \<Rightarrow> cell list) \<Rightarrow> nat \<Rightarrow> cell list list \<Rightarrow> cell list list
     \<Rightarrow> cell list list"
where
  "left_rows li ri rpart nr L R =
     concat (map (\<lambda>l. if matches_of li ri R l = [] then [l @ replicate nr Null]
                      else map (\<lambda>r. l @ rpart r) (matches_of li ri R l)) L)"

definition right_rows ::
  "nat \<Rightarrow> nat \<Rightarrow> (cell list \<Rightarrow> cell list) \<Rightarrow> (cell list \<Rightarrow> cell list) \<Rightarrow> cell list list
     \<Rightarrow> cell list list \<Rightarrow> cell list list"
where
  "right_rows li ri rpart lnull L R =
     concat (map (\<lambda>r. if matched_by li ri L r = [] then [lnull r @ rpart r]
                      else map (\<lambda>l. l @ rpart r) (matched_by li ri L r)) R)"

definition outer_rows ::
  "nat \<Rightarrow> nat \<Rightarrow> (cell list \<Rightarrow> cell list) \<Rightarrow> (cell list \<Rightarrow> cell list) \<Rightarrow> nat
     \<Rightarrow> cell list list \<Rightarrow> cell list list \<Rightarrow> cell list list"
where
  "outer_rows li ri rpart lnull nr L R =
     left_rows li ri rpart nr L R @
     map (\<lambda>r. lnull r @ rpart r) (filter (\<lambda>r. matched_by li ri L r = []) R)"

text \<open>
  Modelled from the spec: \<open>pd_merge\<close> stands for \<open>pandas.merge(left_df, right_df,
  left_on=..., right_on=..., how=...)\<close>, which is missing from the sources. Following
  section 4.2: both key columns must exist, key columns whose kinds can never match are
  a MergeError, and the rows are those that the join kind names. A key column that has
  the same label on both sides appears once in the output; any other label that both
  tables carry gets the suffix \<open>_x\<close> on the left and \<open>_y\<close> on the right.
\<close>

definition pd_merge ::
  "dataframe \<Rightarrow> dataframe \<Rightarrow> string option \<Rightarrow> string option \<Rightarrow> join_kind \<Rightarrow> exn + dataframe"
where
  "pd_merge left_df right_df left_on right_on how =
     (case (left_on, right_on) of
        (Some lk, Some rk) \<Rightarrow>
          (case (index_of (columns left_df) lk, index_of (columns right_df) rk) of
             (Some li, Some ri) \<Rightarrow>
               if incompatible (key_kinds li (rows left_df)) (key_kinds ri (rows right_df))
               then Inl MergeError
               else
                 let shared = (lk = rk);
                     rpart = (if shared then drop_nth ri else (\<lambda>r. r));
                     rcols = (if shared then drop_nth ri (columns right_df)
                              else columns right_df);
                     nl = length (columns left_df);
                     nr = length rcols;
                     lnull = (\<lambda>r. if shared then (replicate nl Null)[li := cell_at r ri]
                                   else replicate nl Null);
                     L = rows left_df;
                     R = rows right_df
                 in Inr \<lparr>columns = merged_columns (columns left_df) rcols,
                         rows = (case how of
                                   inner \<Rightarrow> inner_rows li ri rpart L R
                                 | left \<Rightarrow> left_rows li ri rpart nr L R
                                 | right \<Rightarrow> right_rows li ri rpart lnull L R
                                 | outer \<Rightarrow> outer_rows li ri rpart lnull nr L R)\<rparr>
           | _ \<Rightarrow> Inl MergeError)
      | _ \<Rightarrow> Inl MergeError)"

text \<open>
  Modelled from the spec: the parts of the result of \<open>pd_merge\<close>, under names of their
  own (they are the bindings of its \<open>let\<close>): what a right row contributes to an output
  row, the left side of an output row that has no left partner, and the rows that a left,
  right or outer join adds for the left rows and the right rows without a partner.
\<close>

definition right_part :: "string \<Rightarrow> string \<Rightarrow> nat \<Rightarrow> 'a list \<Rightarrow> 'a list" where
  "right_part lk rk ri = (if lk = rk then drop_nth ri else (\<lambda>r. r))"

definition left_nulls :: "string \<Rightarrow> string \<Rightarrow> nat \<Rightarrow> nat \<Rightarrow> nat \<Rightarrow> cell list \<Rightarrow> cell list" where
  "left_nulls lk rk li ri nl =
     (\<lambda>r. if lk = rk then (replicate nl Null)[li := cell_at r ri] else replicate nl Null)"

definition unmatched_left ::
  "nat \<Rightarrow> nat \<Rightarrow> nat \<Rightarrow> cell list list \<Rightarrow> cell list list \<Rightarrow> cell list list"
where
  "unmatched_left li ri nr L R =
     map (\<lambda>l. l @ replicate nr Null) (filter (\<lambda>l. matches_of li ri R l = []) L)"

definition unmatched_right ::
  "nat \<Rightarrow> nat \<Rightarrow> (cell list \<Rightarrow> cell list) \<Rightarrow> (cell list \<Rightarrow> cell list) \<Rightarrow> cell list list
     \<Rightarrow> cell list list \<Rightarrow> cell list list"
where
  "unmatched_right li ri rpart lnull L R =
     map (\<lambda>r. lnull r @ rpart r) (filter (\<lambda>r. matched_by li ri L r = []) R)"

section \<open>Session state\<close>

text \<open>
  \<open>st.session_state\<close> with its three entries. Lines 16 to 21 give a new session its
  first values; a later run of the script finds the entries present and keeps them.
\<close>

record session_state =
  step :: int
  dataframes :: "(string \<times> dataframe) list"
  final_df :: "dataframe option"

definition init_session :: session_state where
  "init_session = \<lparr>step = 1, dataframes = [], final_df = None\<rparr>"

text \<open>
  \<open>move_to_step\<close> (lines 24 to 26) stores the step. Its \<open>st.rerun()\<close> is accounted for
  where it is called: inside an \<open>on_click\<close> callback it does nothing, inside the script
  it ends the run and starts another (see \<open>Rerun\<close> below).
\<close>

definition move_to_step :: "int \<Rightarrow> session_state \<Rightarrow> session_state" where
  "move_to_step step_number s = s\<lparr>step := step_number\<rparr>"

section \<open>Widgets\<close>

text \<open>
  An uploaded file, as the Excel reader sees it: it cannot be read, or it has sheets,
  each with a name and its parsed table, in the order of \<open>xls.sheet_names\<close>.
\<close>

datatype excel_file = Unreadable | Workbook "(string \<times> dataframe) list"

datatype button =
  Next_Build_Relationships | Merge_Sheets | Back | Skip_Merge | Next_Visualize | Start_Over

text \<open>
  What the user has entered when the script runs: the file in the uploader, the entry
  picked in each selectbox (if the user picked one), and the button whose click started
  this run (a click starts one run, so at most one button reads as pressed).
\<close>

record widgets =
  uploaded_file :: "excel_file option"
  left_sheet :: "string option"
  right_sheet :: "string option"
  left_on :: "string option"
  right_on :: "string option"
  how :: join_kind
  clicked :: "button option"

text \<open>
  \<open>st.selectbox\<close> returns the picked entry when it is one of the options, the first
  option when nothing valid is picked, and \<open>None\<close> when there are no options.
\<close>

definition selectbox :: "'a list \<Rightarrow> 'a option \<Rightarrow> 'a option" where
  "selectbox opts pick =
     (case opts of
        [] \<Rightarrow> None
      | x # _ \<Rightarrow> (case pick of
                    None \<Rightarrow> Some x
                  | Some v \<Rightarrow> if v \<in> set opts then Some v else Some x))"

section \<open>The script\<close>

text \<open>
  A run of the script ends in one of three ways: it reaches the end of the page, an
  exception escapes, or \<open>st.rerun()\<close> stops it and asks for a new run. What the run
  stored in the session stays stored in each case. \<open>shown\<close> lists the buttons the run
  has put on the page.
\<close>

datatype outcome = Completed | Raised exn | Rerun

record run =
  state :: session_state
  shown :: "button list"
  outcome :: outcome

text \<open>\<open>load_excel_file\<close> (lines 28 to 38): any exception is caught and only reported.\<close>

definition load_excel_file :: "session_state \<Rightarrow> excel_file \<Rightarrow> session_state" where
  "load_excel_file s f =
     (case f of
        Workbook sheets \<Rightarrow> s\<lparr>dataframes := dict_of sheets\<rparr>
      | Unreadable \<Rightarrow> s)"

text \<open>\<open>render_step1_upload\<close> (lines 41 to 58).\<close>

definition render_step1_upload :: "session_state \<Rightarrow> widgets \<Rightarrow> run" where
  "render_step1_upload s w =
     (case uploaded_file w of
        None \<Rightarrow> \<lparr>state = s, shown = [], outcome = Completed\<rparr>
      | Some f \<Rightarrow>
          let s1 = (if dataframes s = [] then load_excel_file s f else s)
          in if dataframes s1 \<noteq> []
             then \<lparr>state = s1, shown = [Next_Build_Relationships], outcome = Completed\<rparr>
             else \<lparr>state = s1, shown = [], outcome = Completed\<rparr>)"

text \<open>
  The options of the right-hand selectbox (line 76):
  \<open>[s for s in sheet_names if s != left_sheet]\<close>.
\<close>

definition right_sheet_options :: "string list \<Rightarrow> string option \<Rightarrow> string list" where
  "right_sheet_options sheet_names lsheet = filter (\<lambda>s. Some s \<noteq> lsheet) sheet_names"

text \<open>
  Lines 65 to 88: the two tables and the join configuration that the selectboxes give.
  A lookup of a sheet that is not there raises KeyError and ends the run.
\<close>

record join_spec =
  js_left_sheet :: "string option"
  js_left_df :: dataframe
  js_right_sheet :: "string option"
  js_right_df :: dataframe
  js_left_on :: "string option"
  js_right_on :: "string option"
  js_how :: join_kind

definition select_join :: "session_state \<Rightarrow> widgets \<Rightarrow> exn + join_spec" where
  "select_join s w =
     (let sheet_names = map fst (dataframes s);
          lsheet = selectbox sheet_names (left_sheet w)
      in case dict_get (dataframes s) lsheet of
           Inl e \<Rightarrow> Inl e
         | Inr ldf \<Rightarrow>
             (let rsheet = selectbox (right_sheet_options sheet_names lsheet) (right_sheet w)
              in (case dict_get (dataframes s) rsheet of
                    Inl e \<Rightarrow> Inl e
                  | Inr rdf \<Rightarrow>
                      Inr \<lparr>js_left_sheet = lsheet, js_left_df = ldf,
                           js_right_sheet = rsheet, js_right_df = rdf,
                           js_left_on = selectbox (columns ldf) (left_on w),
                           js_right_on = selectbox (columns rdf) (right_on w),
                           js_how = how w\<rparr>)))"

text \<open>
  \<open>render_step2_relations\<close> (lines 61 to 112). The merge function is a parameter: the
  script only calls it, catches whatever it raises, and stores what it returns.
\<close>

type_synonym merge_fun =
  "dataframe \<Rightarrow> dataframe \<Rightarrow> string option \<Rightarrow> string option \<Rightarrow> join_kind \<Rightarrow> exn + dataframe"

definition perform_merge :: "merge_fun \<Rightarrow> session_state \<Rightarrow> join_spec \<Rightarrow> session_state" where
  "perform_merge mrg s j =
     (case mrg (js_left_df j) (js_right_df j) (js_left_on j) (js_right_on j) (js_how j) of
        Inr merged_df \<Rightarrow> s\<lparr>final_df := Some merged_df\<rparr>
      | Inl e \<Rightarrow> s)"

definition render_step2_relations :: "merge_fun \<Rightarrow> session_state \<Rightarrow> widgets \<Rightarrow> run" where
  "render_step2_relations mrg s w =
     (case select_join s w of
        Inl e \<Rightarrow> \<lparr>state = s, shown = [], outcome = Raised e\<rparr>
      | Inr j \<Rightarrow>
          let s1 = (if clicked w = Some Merge_Sheets then perform_merge mrg s j else s)
          in if final_df s1 = None
             then if clicked w = Some Skip_Merge
                  then \<lparr>state = move_to_step 3 (s1\<lparr>final_df := Some (js_left_df j)\<rparr>),
                        shown = [Merge_Sheets, Back, Skip_Merge], outcome = Rerun\<rparr>
                  else \<lparr>state = s1, shown = [Merge_Sheets, Back, Skip_Merge],
                        outcome = Completed\<rparr>
             else \<lparr>state = s1, shown = [Merge_Sheets, Back, Next_Visualize],
                   outcome = Completed\<rparr>)"

text \<open>\<open>render_step3_visualize\<close> (lines 115 to 130); the renderer is outside the model.\<close>

definition render_step3_visualize :: "session_state \<Rightarrow> widgets \<Rightarrow> run" where
  "render_step3_visualize s w =
     (if clicked w = Some Start_Over
      then \<lparr>state = move_to_step 1 (s\<lparr>dataframes := [], final_df := None\<rparr>),
            shown = [Start_Over], outcome = Rerun\<rparr>
      else \<lparr>state = s, shown = [Start_Over], outcome = Completed\<rparr>)"

text \<open>\<open>main\<close> (lines 133 to 145): the progress bar reads \<open>progress_map[step]\<close> first.\<close>

definition progress_map :: "int \<rightharpoonup> int" where
  "progress_map = map_of [(1, 33), (2, 66), (3, 100)]"

definition main :: "merge_fun \<Rightarrow> session_state \<Rightarrow> widgets \<Rightarrow> run" where
  "main mrg s w =
     (case progress_map (step s) of
        None \<Rightarrow> \<lparr>state = s, shown = [], outcome = Raised KeyError\<rparr>
      | Some _ \<Rightarrow>
          if step s = 1 then render_step1_upload s w
          else if step s = 2 then render_step2_relations mrg s w
          else if step s = 3 then render_step3_visualize s w
          else \<lparr>state = s, shown = [], outcome = Completed\<rparr>)"

section \<open>One user action\<close>

text \<open>
  The \<open>on_click\<close> callbacks (lines 58, 104 and 112): these buttons call
  \<open>move_to_step\<close> with a fixed argument before the script runs. The other buttons have
  no callback; the script reads them.
\<close>

fun on_click :: "button \<Rightarrow> int option" where
  "on_click Next_Build_Relationships = Some 2"
| "on_click Back = Some 1"
| "on_click Next_Visualize = Some 3"
| "on_click _ = None"

definition run_callback :: "session_state \<Rightarrow> widgets \<Rightarrow> session_state" where
  "run_callback s w =
     (case clicked w of
        None \<Rightarrow> s
      | Some b \<Rightarrow> (case on_click b of None \<Rightarrow> s | Some n \<Rightarrow> move_to_step n s))"

text \<open>
  The file uploader is on the page of step 1 only, and a widget that was not on the page
  has no value: a run that follows a page of step 2 or 3 finds the uploader empty.
\<close>

definition page_widgets :: "session_state \<Rightarrow> widgets \<Rightarrow> widgets" where
  "page_widgets s w = (if step s = 1 then w else w\<lparr>uploaded_file := None\<rparr>)"

text \<open>
  A run that ends in \<open>st.rerun()\<close> is followed at once by a new run, in which no button
  reads as pressed.
\<close>

definition run_script :: "merge_fun \<Rightarrow> session_state \<Rightarrow> widgets \<Rightarrow> run" where
  "run_script mrg s w =
     (let r = main mrg s w
      in if outcome r = Rerun
         then main mrg (state r) ((page_widgets s w)\<lparr>clicked := None\<rparr>)
         else r)"

definition handle_event :: "merge_fun \<Rightarrow> session_state \<Rightarrow> widgets \<Rightarrow> run" where
  "handle_event mrg s w = run_script mrg (run_callback s w) (page_widgets s w)"

text \<open>
  The user can only click a button that is on the page, that is, one that the script
  shows for this session state and these widget values.
\<close>

definition enabled :: "merge_fun \<Rightarrow> session_state \<Rightarrow> widgets \<Rightarrow> bool" where
  "enabled mrg s w =
     (case clicked w of
        None \<Rightarrow> True
      | Some b \<Rightarrow> b \<in> set (shown (main mrg s (w\<lparr>clicked := None\<rparr>))))"

text \<open>The session states that a sequence of user actions can lead to.\<close>

inductive reachable :: "merge_fun \<Rightarrow> session_state \<Rightarrow> bool" for mrg :: merge_fun where
  start: "reachable mrg init_session"
| action: "reachable mrg s \<Longrightarrow> enabled mrg s w \<Longrightarrow> reachable mrg (state (handle_event mrg s w))"

section \<open>Example tables and sessions\<close>

definition left_example :: dataframe where
  "left_example =
     \<lparr>columns = [''id'', ''a''], rows = [[Num 1, Text ''x''], [Num 2, Text ''y'']]\<rparr>"

definition right_example :: dataframe where
  "right_example =
     \<lparr>columns = [''id'', ''b''], rows = [[Num 1, Text ''p''], [Num 3, Text ''q'']]\<rparr>"

definition joined_example :: dataframe where
  "joined_example = \<lparr>columns = [''id'', ''a'', ''b''], rows = [[Num 1, Text ''x'', Text ''p'']]\<rparr>"

definition two_fives :: dataframe where
  "two_fives =
     \<lparr>columns = [''key'', ''a''], rows = [[Num 5, Text ''x''], [Num 5, Text ''y'']]\<rparr>"

definition one_five :: dataframe where
  "one_five = \<lparr>columns = [''key'', ''b''], rows = [[Num 5, Text ''p'']]\<rparr>"

definition text_keys :: dataframe where
  "text_keys = \<lparr>columns = [''id'', ''c''], rows = [[Text ''one'', Bool True]]\<rparr>"

definition no_input :: widgets where
  "no_input =
     \<lparr>uploaded_file = None, left_sheet = None, right_sheet = None, left_on = None,
      right_on = None, how = inner, clicked = None\<rparr>"

definition click :: "button \<Rightarrow> widgets" where
  "click b = no_input\<lparr>clicked := Some b\<rparr>"

definition relate_example :: session_state where
  "relate_example =
     \<lparr>step = 2, dataframes = [(''A'', left_example), (''B'', right_example)], final_df = None\<rparr>"

definition relate_mismatch :: session_state where
  "relate_mismatch =
     \<lparr>step = 2, dataframes = [(''A'', left_example), (''C'', text_keys)], final_df = None\<rparr>"

definition example_upload :: widgets where
  "example_upload =
     no_input\<lparr>uploaded_file := Some (Workbook [(''A'', left_example), (''B'', right_example)])\<rparr>"

text \<open>
  A session with a third sheet whose \<open>id\<close> column holds text: the same session after a
  successful merge of \<open>A\<close> and \<open>B\<close>, and the widgets of a second press on "Merge Sheets"
  with \<open>C\<close> picked on the right.
\<close>

definition relate_three :: session_state where
  "relate_three =
     \<lparr>step = 2,
      dataframes = [(''A'', left_example), (''B'', right_example), (''C'', text_keys)],
      final_df = None\<rparr>"

definition stale_session :: session_state where
  "stale_session =
     \<lparr>step = 2,
      dataframes = [(''A'', left_example), (''B'', right_example), (''C'', text_keys)],
      final_df = Some joined_example\<rparr>"

definition retry_with_c :: widgets where
  "retry_with_c = no_input\<lparr>right_sheet := Some ''C'', clicked := Some Merge_Sheets\<rparr>"

section \<open>Properties of the join\<close>

lemma map_filter_concat:
  "map f (filter P xs) = concat (map (\<lambda>x. if P x then [f x] else []) xs)"
  by (induction xs) simp_all

lemma inner_rows_comprehension:
  "inner_rows li ri rpart L R = [l @ rpart r. l \<leftarrow> L, r \<leftarrow> R, cell_at l li = cell_at r ri]"
  by (simp add: inner_rows_def matches_of_def map_filter_concat)

lemma pd_merge_inner_rows:
  assumes "pd_merge L R (Some lk) (Some rk) inner = Inr M"
  shows "\<exists>li ri. index_of (columns L) lk = Some li \<and> index_of (columns R) rk = Some ri \<and>
     rows M = inner_rows li ri (if lk = rk then drop_nth ri else (\<lambda>r. r)) (rows L) (rows R)"
  using assms
  by (auto simp: pd_merge_def Let_def split: option.splits if_splits)

lemma pd_merge_inner_ok:
  assumes "index_of (columns L) lk = Some li" "index_of (columns R) rk = Some ri"
    and "\<not> incompatible (key_kinds li (rows L)) (key_kinds ri (rows R))"
  shows "\<exists>M. pd_merge L R (Some lk) (Some rk) inner = Inr M \<and>
     rows M = inner_rows li ri (if lk = rk then drop_nth ri else (\<lambda>r. r)) (rows L) (rows R)"
  using assms by (simp add: pd_merge_def Let_def)

lemma pd_merge_examples:
  "pd_merge left_example right_example (Some ''id'') (Some ''id'') inner = Inr joined_example"
  by (simp add: pd_merge_def left_example_def right_example_def joined_example_def
      incompatible_def key_kinds_def cell_at_def drop_nth_def merged_columns_def
      inner_rows_def matches_of_def)

lemma index_of_less: "index_of xs x = Some i \<Longrightarrow> i < length xs"
  by (induction xs arbitrary: i) (auto split: if_splits)

lemma cell_at_append: "i < length l \<Longrightarrow> cell_at (l @ r) i = cell_at l i"
  by (simp add: cell_at_def nth_append)

lemma length_inner_rows:
  "length (inner_rows li ri rpart L R) = sum_list (map (\<lambda>l. length (matches_of li ri R l)) L)"
  by (simp add: inner_rows_def length_concat comp_def)

lemma filter_inner_rows_one:
  assumes "li < length l"
  shows "filter (\<lambda>out. cell_at out li = v) (map (\<lambda>r. l @ rpart r) (matches_of li ri R l))
    = (if cell_at l li = v then map (\<lambda>r. l @ rpart r) (filter (\<lambda>r. cell_at r ri = v) R) else [])"
  using assms
  by (auto simp: filter_map comp_def cell_at_append matches_of_def
      intro!: arg_cong[where f="map _"] filter_cong)

lemma count_inner_rows:
  assumes "\<forall>l \<in> set L. li < length l"
  shows "length (filter (\<lambda>out. cell_at out li = v) (inner_rows li ri rpart L R))
    = length (filter (\<lambda>l. cell_at l li = v) L) * length (filter (\<lambda>r. cell_at r ri = v) R)"
  using assms
proof (induction L)
  case Nil
  then show ?case by (simp add: inner_rows_def)
next
  case (Cons l L)
  have split: "inner_rows li ri rpart (l # L) R
      = map (\<lambda>r. l @ rpart r) (matches_of li ri R l) @ inner_rows li ri rpart L R"
    by (simp add: inner_rows_def)
  from Cons.prems have "li < length l" by simp
  note one = filter_inner_rows_one[OF this, of v rpart ri R]
  from Cons show ?case
    by (simp add: split one)
qed

lemma key_kinds_Num:
  "r \<in> set rs \<Longrightarrow> cell_at r i = Num n \<Longrightarrow> KNum \<in> set (key_kinds i rs)"
  by (induction rs) (auto simp: key_kinds_def split: option.splits)

lemma not_incompatible: "k \<in> set ks \<Longrightarrow> k \<in> set ks' \<Longrightarrow> \<not> incompatible ks ks'"
  by (auto simp: incompatible_def filter_empty_conv)

text \<open>
  Claim C1. An inner join returns exactly the pairs of a left row and a right row whose key
  values are equal, in the order of the left rows and then of the right rows; a row without
  a partner on the other side contributes nothing. For the tables
  \<open>[{id:1,a:x},{id:2,a:y}]\<close> and \<open>[{id:1,b:p},{id:3,b:q}]\<close> joined on \<open>id\<close> the
  result is the single row \<open>{id:1,a:x,b:p}\<close>.
\<close>

theorem inner_join_correct:
  "(pd_merge L R (Some lk) (Some rk) inner = Inr M \<longrightarrow>
      (\<exists>li ri. index_of (columns L) lk = Some li \<and> index_of (columns R) rk = Some ri \<and>
         rows M = [l @ (if lk = rk then drop_nth ri r else r).
                     l \<leftarrow> rows L, r \<leftarrow> rows R, cell_at l li = cell_at r ri]))
   \<and> pd_merge left_example right_example (Some ''id'') (Some ''id'') inner =
       Inr \<lparr>columns = [''id'', ''a'', ''b''], rows = [[Num 1, Text ''x'', Text ''p'']]\<rparr>"
proof (intro conjI impI)
  assume "pd_merge L R (Some lk) (Some rk) inner = Inr M"
  from pd_merge_inner_rows[OF this] obtain li ri where
    ix: "index_of (columns L) lk = Some li" "index_of (columns R) rk = Some ri"
    and r: "rows M = inner_rows li ri (if lk = rk then drop_nth ri else (\<lambda>r. r)) (rows L) (rows R)"
    by blast
  have "rows M = [l @ (if lk = rk then drop_nth ri r else r).
                     l \<leftarrow> rows L, r \<leftarrow> rows R, cell_at l li = cell_at r ri]"
    by (cases "lk = rk") (simp_all add: r inner_rows_comprehension cong: if_cong)
  with ix show "\<exists>li ri. index_of (columns L) lk = Some li \<and> index_of (columns R) rk = Some ri \<and>
         rows M = [l @ (if lk = rk then drop_nth ri r else r).
                     l \<leftarrow> rows L, r \<leftarrow> rows R, cell_at l li = cell_at r ri]"
    by blast
next
  show "pd_merge left_example right_example (Some ''id'') (Some ''id'') inner =
       Inr \<lparr>columns = [''id'', ''a'', ''b''], rows = [[Num 1, Text ''x'', Text ''p'']]\<rparr>"
    using pd_merge_examples by (simp add: joined_example_def)
qed

theorem inner_join_correct_witness:
  "pd_merge left_example right_example (Some ''id'') (Some ''id'') inner = Inr joined_example \<and>
   rows joined_example =
     [l @ drop_nth 0 r. l \<leftarrow> rows left_example, r \<leftarrow> rows right_example,
        cell_at l 0 = cell_at r 0]"
proof -
  have m: "pd_merge left_example right_example (Some ''id'') (Some ''id'') inner
      = Inr joined_example"
    by (rule pd_merge_examples)
  from inner_join_correct[of left_example right_example "''id''" "''id''" joined_example] m
  obtain li ri where "index_of (columns left_example) ''id'' = Some li"
    "index_of (columns right_example) ''id'' = Some ri"
    "rows joined_example = [l @ (if ''id'' = ''id'' then drop_nth ri r else r).
                     l \<leftarrow> rows left_example, r \<leftarrow> rows right_example, cell_at l li = cell_at r ri]"
    by blast
  moreover have "index_of (columns left_example) ''id'' = Some 0"
    "index_of (columns right_example) ''id'' = Some 0"
    by (simp_all add: left_example_def right_example_def)
  ultimately show ?thesis using m by (simp cong: if_cong)
qed

subsection \<open>The kinds of join\<close>

lemma pd_merge_rows:
  assumes "pd_merge L R (Some lk) (Some rk) h = Inr M"
    and "index_of (columns L) lk = Some li" and "index_of (columns R) rk = Some ri"
  shows "rows M =
    (case h of
       inner \<Rightarrow> inner_rows li ri (right_part lk rk ri) (rows L) (rows R)
     | left \<Rightarrow> left_rows li ri (right_part lk rk ri)
                 (length (right_part lk rk ri (columns R))) (rows L) (rows R)
     | right \<Rightarrow> right_rows li ri (right_part lk rk ri)
                 (left_nulls lk rk li ri (length (columns L))) (rows L) (rows R)
     | outer \<Rightarrow> outer_rows li ri (right_part lk rk ri)
                 (left_nulls lk rk li ri (length (columns L)))
                 (length (right_part lk rk ri (columns R))) (rows L) (rows R))"
  using assms
  by (cases "lk = rk")
     (auto simp: pd_merge_def Let_def right_part_def left_nulls_def
        split: if_splits join_kind.splits)

lemma pd_merge_ok:
  assumes "index_of (columns L) lk = Some li" "index_of (columns R) rk = Some ri"
    and "\<not> incompatible (key_kinds li (rows L)) (key_kinds ri (rows R))"
  shows "\<exists>M. pd_merge L R (Some lk) (Some rk) h = Inr M"
  using assms by (simp add: pd_merge_def Let_def)

lemma mset_left_rows:
  "mset (left_rows li ri rpart nr L R)
     = mset (inner_rows li ri rpart L R) + mset (unmatched_left li ri nr L R)"
  by (induction L) (simp_all add: left_rows_def inner_rows_def unmatched_left_def)

lemma mset_pairs_cons_right:
  "mset (concat (map (\<lambda>l. map (\<lambda>r. f l r) (filter (\<lambda>r. P l r) (r0 # R))) L))
     = mset (map (\<lambda>l. f l r0) (filter (\<lambda>l. P l r0) L))
       + mset (concat (map (\<lambda>l. map (\<lambda>r. f l r) (filter (\<lambda>r. P l r) R)) L))"
  by (induction L) simp_all

lemma mset_pairs_swap:
  "mset (concat (map (\<lambda>r. map (\<lambda>l. f l r) (filter (\<lambda>l. P l r) L)) R))
     = mset (concat (map (\<lambda>l. map (\<lambda>r. f l r) (filter (\<lambda>r. P l r) R)) L))"
proof (induction R)
  case Nil
  show ?case by (induction L) simp_all
next
  case (Cons r0 R)
  have "mset (concat (map (\<lambda>r. map (\<lambda>l. f l r) (filter (\<lambda>l. P l r) L)) (r0 # R)))
      = mset (map (\<lambda>l. f l r0) (filter (\<lambda>l. P l r0) L))
        + mset (concat (map (\<lambda>r. map (\<lambda>l. f l r) (filter (\<lambda>l. P l r) L)) R))"
    by simp
  also have "\<dots> = mset (map (\<lambda>l. f l r0) (filter (\<lambda>l. P l r0) L))
        + mset (concat (map (\<lambda>l. map (\<lambda>r. f l r) (filter (\<lambda>r. P l r) R)) L))"
    by (simp only: Cons.IH)
  also have "\<dots> = mset (concat (map (\<lambda>l. map (\<lambda>r. f l r) (filter (\<lambda>r. P l r) (r0 # R))) L))"
    by (simp only: mset_pairs_cons_right)
  finally show ?case .
qed

lemma mset_right_rows:
  "mset (right_rows li ri rpart lnull L R)
     = mset (inner_rows li ri rpart L R) + mset (unmatched_right li ri rpart lnull L R)"
proof -
  have "mset (right_rows li ri rpart lnull L R)
      = mset (concat (map (\<lambda>r. map (\<lambda>l. l @ rpart r) (matched_by li ri L r)) R))
        + mset (unmatched_right li ri rpart lnull L R)"
    by (induction R) (simp_all add: right_rows_def unmatched_right_def)
  also have "mset (concat (map (\<lambda>r. map (\<lambda>l. l @ rpart r) (matched_by li ri L r)) R))
      = mset (inner_rows li ri rpart L R)"
    unfolding matched_by_def inner_rows_def matches_of_def
    by (rule mset_pairs_swap)
  finally show ?thesis .
qed

lemma mset_outer_rows:
  "mset (outer_rows li ri rpart lnull nr L R)
     = mset (inner_rows li ri rpart L R) + mset (unmatched_left li ri nr L R)
       + mset (unmatched_right li ri rpart lnull L R)"
  by (simp add: outer_rows_def mset_left_rows unmatched_right_def)

lemma length_filter_mset_cong: "mset xs = mset ys \<Longrightarrow> length (filter P xs) = length (filter P ys)"
proof -
  assume "mset xs = mset ys"
  then have "size (filter_mset P (mset xs)) = size (filter_mset P (mset ys))"
    by simp
  then show ?thesis
    by (simp only: mset_filter[symmetric] size_mset)
qed

lemma unmatched_left_no_key:
  assumes "\<forall>l \<in> set L. li < length l" and "r \<in> set R" and "cell_at r ri = v"
  shows "filter (\<lambda>out. cell_at out li = v) (unmatched_left li ri nr L R) = []"
proof -
  have False if "l \<in> set L" "matches_of li ri R l = []" "cell_at (l @ replicate nr Null) li = v"
    for l
  proof -
    from that(1) assms(1) have "cell_at l li = v"
      using that(3) by (simp add: cell_at_append)
    with assms(2,3) have "r \<in> set (matches_of li ri R l)"
      by (simp add: matches_of_def)
    with that(2) show False by simp
  qed
  then show ?thesis
    by (auto simp: unmatched_left_def filter_empty_conv)
qed

lemma cell_at_left_nulls:
  assumes "li < nl"
  shows "cell_at (left_nulls lk rk li ri nl r @ x) li = (if lk = rk then cell_at r ri else Null)"
  using assms by (simp add: left_nulls_def cell_at_def nth_append)

lemma unmatched_right_no_key:
  assumes "li < nl" and "l \<in> set L" and "cell_at l li = v" and "v \<noteq> Null"
  shows "filter (\<lambda>out. cell_at out li = v)
           (unmatched_right li ri rpart (left_nulls lk rk li ri nl) L R) = []"
proof -
  have False if "matched_by li ri L r = []"
    "cell_at (left_nulls lk rk li ri nl r @ rpart r) li = v" for r
  proof (cases "lk = rk")
    case True
    with that(2) assms(1) have "cell_at r ri = v"
      by (simp add: cell_at_left_nulls)
    with assms(2,3) have "l \<in> set (matched_by li ri L r)"
      by (simp add: matched_by_def)
    with that(1) show False by simp
  next
    case False
    with that(2) assms(1,4) show False
      by (simp add: cell_at_left_nulls)
  qed
  then show ?thesis
    by (auto simp: unmatched_right_def filter_empty_conv)
qed

lemma pd_merge_mset:
  assumes "pd_merge L R (Some lk) (Some rk) h = Inr M"
    and "index_of (columns L) lk = Some li" and "index_of (columns R) rk = Some ri"
  shows "mset (rows M) =
     mset (inner_rows li ri (right_part lk rk ri) (rows L) (rows R))
     + (if h = left \<or> h = outer
        then mset (unmatched_left li ri (length (right_part lk rk ri (columns R)))
                     (rows L) (rows R))
        else {#})
     + (if h = right \<or> h = outer
        then mset (unmatched_right li ri (right_part lk rk ri)
                     (left_nulls lk rk li ri (length (columns L))) (rows L) (rows R))
        else {#})"
  using pd_merge_rows[OF assms]
  by (cases h) (simp_all add: mset_left_rows mset_right_rows mset_outer_rows)

lemma pd_merge_count:
  assumes m: "pd_merge L R (Some lk) (Some rk) h = Inr M"
    and ix: "index_of (columns L) lk = Some li" "index_of (columns R) rk = Some ri"
    and wf: "\<forall>l \<in> set (rows L). length l = length (columns L)"
    and v: "v \<noteq> Null" "l0 \<in> set (rows L)" "cell_at l0 li = v" "r0 \<in> set (rows R)"
      "cell_at r0 ri = v"
  shows "length [out \<leftarrow> rows M. cell_at out li = v] =
           length [l \<leftarrow> rows L. cell_at l li = v] * length [r \<leftarrow> rows R. cell_at r ri = v]"
proof -
  let ?P = "\<lambda>out. cell_at out li = v"
  let ?inner = "inner_rows li ri (right_part lk rk ri) (rows L) (rows R)"
  let ?ul = "unmatched_left li ri (length (right_part lk rk ri (columns R))) (rows L) (rows R)"
  let ?ur = "unmatched_right li ri (right_part lk rk ri)
               (left_nulls lk rk li ri (length (columns L))) (rows L) (rows R)"
  let ?rest = "(if h = left \<or> h = outer then ?ul else []) @ (if h = right \<or> h = outer then ?ur else [])"
  have lt: "li < length (columns L)"
    by (rule index_of_less[OF ix(1)])
  with wf have wf': "\<forall>l \<in> set (rows L). li < length l"
    by simp
  have "mset (rows M) = mset (?inner @ ?rest)"
    using pd_merge_mset[OF m ix] by simp
  then have "length (filter ?P (rows M)) = length (filter ?P (?inner @ ?rest))"
    by (rule length_filter_mset_cong)
  moreover have "filter ?P ?ul = []"
    by (rule unmatched_left_no_key[OF wf' v(4,5)])
  moreover have "filter ?P ?ur = []"
    by (rule unmatched_right_no_key[OF lt v(2,3,1)])
  ultimately have "length (filter ?P (rows M)) = length (filter ?P ?inner)"
    by simp
  then show ?thesis
    by (simp add: count_inner_rows[OF wf'])
qed

lemma length_unmatched_none:
  assumes "rows L = [l1, l2]" "rows R = [r1]" "cell_at l1 li = c" "cell_at l2 li = c"
    "cell_at r1 ri = c"
  shows "unmatched_left li ri nr (rows L) (rows R) = []"
    and "unmatched_right li ri rpart lnull (rows L) (rows R) = []"
    and "length (inner_rows li ri rpart (rows L) (rows R)) = 2"
  using assms
  by (simp_all add: unmatched_left_def unmatched_right_def matches_of_def matched_by_def
      length_inner_rows)

text \<open>
  Claim C7. For every kind of join, the rows of the result are the pairings of a left row
  and a right row with equal keys, each pairing once, together with one null-filled row
  for each row without a partner that the kind keeps (none for an inner join). The
  pairings with a given key value number the left rows with that key times the right rows
  with it, and so do the output rows with that key when the key is a value that occurs on
  both sides. Two left rows with key 5 and one right row with key 5 give exactly two
  output rows, whatever the kind.
\<close>

theorem merge_row_multiplicity:
  assumes "index_of (columns L) lk = Some li" and "index_of (columns R) rk = Some ri"
  shows "(pd_merge L R (Some lk) (Some rk) h = Inr M \<longrightarrow>
            mset (rows M) =
              mset [l @ right_part lk rk ri r.
                      l \<leftarrow> rows L, r \<leftarrow> rows R, cell_at l li = cell_at r ri]
              + (if h = left \<or> h = outer
                 then mset (unmatched_left li ri (length (right_part lk rk ri (columns R)))
                              (rows L) (rows R))
                 else {#})
              + (if h = right \<or> h = outer
                 then mset (unmatched_right li ri (right_part lk rk ri)
                              (left_nulls lk rk li ri (length (columns L))) (rows L) (rows R))
                 else {#}))
       \<and> ((\<forall>l \<in> set (rows L). length l = length (columns L)) \<longrightarrow>
            length [p \<leftarrow> [l @ right_part lk rk ri r.
                             l \<leftarrow> rows L, r \<leftarrow> rows R, cell_at l li = cell_at r ri].
                      cell_at p li = v] =
              length [l \<leftarrow> rows L. cell_at l li = v] * length [r \<leftarrow> rows R. cell_at r ri = v])
       \<and> (pd_merge L R (Some lk) (Some rk) h = Inr M \<longrightarrow>
            (\<forall>l \<in> set (rows L). length l = length (columns L)) \<longrightarrow>
            v \<noteq> Null \<longrightarrow>
            (\<exists>l \<in> set (rows L). cell_at l li = v) \<longrightarrow>
            (\<exists>r \<in> set (rows R). cell_at r ri = v) \<longrightarrow>
            length [out \<leftarrow> rows M. cell_at out li = v] =
              length [l \<leftarrow> rows L. cell_at l li = v] * length [r \<leftarrow> rows R. cell_at r ri = v])
       \<and> (pd_merge L R (Some lk) (Some rk) inner = Inr M \<longrightarrow>
            (\<forall>l \<in> set (rows L). length l = length (columns L)) \<longrightarrow>
            length [out \<leftarrow> rows M. cell_at out li = v] =
              length [l \<leftarrow> rows L. cell_at l li = v] * length [r \<leftarrow> rows R. cell_at r ri = v])
       \<and> (rows L = [l1, l2] \<and> rows R = [r1] \<and> cell_at l1 li = Num 5 \<and> cell_at l2 li = Num 5
            \<and> cell_at r1 ri = Num 5 \<longrightarrow>
            (\<exists>M'. pd_merge L R (Some lk) (Some rk) h = Inr M' \<and> length (rows M') = 2))"
proof (intro conjI impI)
  assume m: "pd_merge L R (Some lk) (Some rk) h = Inr M"
  show "mset (rows M) =
      mset [l @ right_part lk rk ri r. l \<leftarrow> rows L, r \<leftarrow> rows R, cell_at l li = cell_at r ri]
      + (if h = left \<or> h = outer
         then mset (unmatched_left li ri (length (right_part lk rk ri (columns R)))
                      (rows L) (rows R))
         else {#})
      + (if h = right \<or> h = outer
         then mset (unmatched_right li ri (right_part lk rk ri)
                      (left_nulls lk rk li ri (length (columns L))) (rows L) (rows R))
         else {#})"
    using pd_merge_mset[OF m assms] by (simp only: inner_rows_comprehension)
next
  assume wf: "\<forall>l \<in> set (rows L). length l = length (columns L)"
  from wf index_of_less[OF assms(1)] have "\<forall>l \<in> set (rows L). li < length l"
    by simp
  from count_inner_rows[OF this]
  show "length [p \<leftarrow> [l @ right_part lk rk ri r.
                         l \<leftarrow> rows L, r \<leftarrow> rows R, cell_at l li = cell_at r ri].
                  cell_at p li = v] =
      length [l \<leftarrow> rows L. cell_at l li = v] * length [r \<leftarrow> rows R. cell_at r ri = v]"
    by (simp only: inner_rows_comprehension[symmetric])
next
  assume m: "pd_merge L R (Some lk) (Some rk) h = Inr M"
    and wf: "\<forall>l \<in> set (rows L). length l = length (columns L)"
    and v: "v \<noteq> Null"
    and "\<exists>l \<in> set (rows L). cell_at l li = v" and "\<exists>r \<in> set (rows R). cell_at r ri = v"
  then obtain l0 r0 where occ: "l0 \<in> set (rows L)" "cell_at l0 li = v"
    "r0 \<in> set (rows R)" "cell_at r0 ri = v"
    by blast
  show "length [out \<leftarrow> rows M. cell_at out li = v] =
      length [l \<leftarrow> rows L. cell_at l li = v] * length [r \<leftarrow> rows R. cell_at r ri = v]"
    by (rule pd_merge_count[OF m assms wf v occ])
next
  assume m: "pd_merge L R (Some lk) (Some rk) inner = Inr M"
    and wf: "\<forall>l \<in> set (rows L). length l = length (columns L)"
  from pd_merge_inner_rows[OF m] assms
  have r: "rows M = inner_rows li ri (if lk = rk then drop_nth ri else (\<lambda>r. r)) (rows L) (rows R)"
    by auto
  from wf index_of_less[OF assms(1)] have "\<forall>l \<in> set (rows L). li < length l"
    by simp
  from count_inner_rows[OF this] show "length [out \<leftarrow> rows M. cell_at out li = v] =
      length [l \<leftarrow> rows L. cell_at l li = v] * length [r \<leftarrow> rows R. cell_at r ri = v]"
    by (simp add: r)
next
  assume h: "rows L = [l1, l2] \<and> rows R = [r1] \<and> cell_at l1 li = Num 5 \<and> cell_at l2 li = Num 5
            \<and> cell_at r1 ri = Num 5"
  have "KNum \<in> set (key_kinds li (rows L))"
    using h key_kinds_Num[of l1 "rows L" li 5] by simp
  moreover have "KNum \<in> set (key_kinds ri (rows R))"
    using h key_kinds_Num[of r1 "rows R" ri 5] by simp
  ultimately have "\<not> incompatible (key_kinds li (rows L)) (key_kinds ri (rows R))"
    by (rule not_incompatible)
  from pd_merge_ok[OF assms this] obtain M' where
    m: "pd_merge L R (Some lk) (Some rk) h = Inr M'"
    by blast
  have parts: "unmatched_left li ri (length (right_part lk rk ri (columns R))) (rows L) (rows R) = []"
    "unmatched_right li ri (right_part lk rk ri) (left_nulls lk rk li ri (length (columns L)))
       (rows L) (rows R) = []"
    "length (inner_rows li ri (right_part lk rk ri) (rows L) (rows R)) = 2"
  proof -
    from h have hs: "rows L = [l1, l2]" "rows R = [r1]" "cell_at l1 li = Num 5"
      "cell_at l2 li = Num 5" "cell_at r1 ri = Num 5"
      by simp_all
    show "unmatched_left li ri (length (right_part lk rk ri (columns R))) (rows L) (rows R) = []"
      by (rule length_unmatched_none(1)[OF hs])
    show "unmatched_right li ri (right_part lk rk ri) (left_nulls lk rk li ri (length (columns L)))
       (rows L) (rows R) = []"
      by (rule length_unmatched_none(2)[OF hs])
    show "length (inner_rows li ri (right_part lk rk ri) (rows L) (rows R)) = 2"
      by (rule length_unmatched_none(3)[OF hs])
  qed
  have "size (mset (rows M')) = 2"
    by (simp only: pd_merge_mset[OF m assms] parts) (simp add: parts(3))
  then have "length (rows M') = 2"
    by simp
  with m show "\<exists>M'. pd_merge L R (Some lk) (Some rk) h = Inr M' \<and> length (rows M') = 2"
    by blast
qed

theorem merge_row_multiplicity_witness:
  "(\<exists>M'. pd_merge two_fives one_five (Some ''key'') (Some ''key'') inner = Inr M'
      \<and> length (rows M') = 2)
   \<and> (\<exists>M'. pd_merge two_fives one_five (Some ''key'') (Some ''key'') outer = Inr M'
      \<and> length (rows M') = 2)
   \<and> pd_merge two_fives one_five (Some ''key'') (Some ''key'') inner =
      Inr \<lparr>columns = [''key'', ''a'', ''b''],
           rows = [[Num 5, Text ''x'', Text ''p''], [Num 5, Text ''y'', Text ''p'']]\<rparr>
   \<and> pd_merge two_fives one_five (Some ''key'') (Some ''key'') left =
      Inr \<lparr>columns = [''key'', ''a'', ''b''],
           rows = [[Num 5, Text ''x'', Text ''p''], [Num 5, Text ''y'', Text ''p'']]\<rparr>
   \<and> length [out \<leftarrow> [[Num 5, Text ''x'', Text ''p''], [Num 5, Text ''y'', Text ''p'']].
                cell_at out 0 = Num 5] = 2 * 1"
proof -
  have ix: "index_of (columns two_fives) ''key'' = Some 0"
    "index_of (columns one_five) ''key'' = Some 0"
    by (simp_all add: two_fives_def one_five_def)
  have ex: "rows two_fives = [[Num 5, Text ''x''], [Num 5, Text ''y'']] \<and>
    rows one_five = [[Num 5, Text ''p'']] \<and>
    cell_at [Num 5, Text ''x''] 0 = Num 5 \<and> cell_at [Num 5, Text ''y''] 0 = Num 5 \<and>
    cell_at [Num 5, Text ''p''] 0 = Num 5"
    by (simp add: two_fives_def one_five_def cell_at_def)
  have wf: "\<forall>l \<in> set (rows two_fives). length l = length (columns two_fives)"
    by (simp add: two_fives_def)
  have lft: "pd_merge two_fives one_five (Some ''key'') (Some ''key'') left =
      Inr \<lparr>columns = [''key'', ''a'', ''b''],
           rows = [[Num 5, Text ''x'', Text ''p''], [Num 5, Text ''y'', Text ''p'']]\<rparr>"
    by (simp add: pd_merge_def two_fives_def one_five_def
      incompatible_def key_kinds_def cell_at_def drop_nth_def merged_columns_def
      left_rows_def matches_of_def)
  have occ: "Num 5 \<noteq> Null" "\<exists>l \<in> set (rows two_fives). cell_at l 0 = Num 5"
    "\<exists>r \<in> set (rows one_five). cell_at r 0 = Num 5"
    by (simp_all add: two_fives_def one_five_def cell_at_def)
  have cnt: "length [l \<leftarrow> rows two_fives. cell_at l 0 = Num 5] = 2"
    "length [r \<leftarrow> rows one_five. cell_at r 0 = Num 5] = 1"
    by (simp_all add: two_fives_def one_five_def cell_at_def)
  note five = merge_row_multiplicity[OF ix, THEN conjunct2, THEN conjunct2, THEN conjunct2,
      THEN conjunct2, rule_format]
  note three = merge_row_multiplicity[OF ix, THEN conjunct2, THEN conjunct2, THEN conjunct1,
      rule_format]
  have a: "\<exists>M'. pd_merge two_fives one_five (Some ''key'') (Some ''key'') inner = Inr M'
      \<and> length (rows M') = 2"
    by (rule five[OF ex])
  have b: "\<exists>M'. pd_merge two_fives one_five (Some ''key'') (Some ''key'') outer = Inr M'
      \<and> length (rows M') = 2"
    by (rule five[OF ex])
  have c: "length [out \<leftarrow> [[Num 5, Text ''x'', Text ''p''], [Num 5, Text ''y'', Text ''p'']].
                cell_at out 0 = Num 5] =
      length [l \<leftarrow> rows two_fives. cell_at l 0 = Num 5]
      * length [r \<leftarrow> rows one_five. cell_at r 0 = Num 5]"
    using three[OF lft wf[rule_format] occ] by simp
  have d: "pd_merge two_fives one_five (Some ''key'') (Some ''key'') inner =
      Inr \<lparr>columns = [''key'', ''a'', ''b''],
           rows = [[Num 5, Text ''x'', Text ''p''], [Num 5, Text ''y'', Text ''p'']]\<rparr>"
    by (simp add: pd_merge_def two_fives_def one_five_def
      incompatible_def key_kinds_def cell_at_def drop_nth_def merged_columns_def
      inner_rows_def matches_of_def)
  from a b c d lft show ?thesis
    by (simp only: cnt)
qed

section \<open>Properties of the wizard\<close>

subsection \<open>The pages\<close>

lemma select_join_page_widgets: "select_join s (page_widgets s w) = select_join s w"
  by (simp add: select_join_def page_widgets_def Let_def split: sum.splits)

lemma clicked_page_widgets: "clicked (page_widgets s w) = clicked w"
  by (simp add: page_widgets_def)

lemma select_join_unclick: "select_join s (w\<lparr>clicked := b\<rparr>) = select_join s w"
  by (simp add: select_join_def Let_def split: sum.splits)

lemma progress_map_simps:
  "progress_map 1 = Some 33" "progress_map 2 = Some 66" "progress_map 3 = Some 100"
  by (simp_all add: progress_map_def)

lemma main_step1: "step s = 1 \<Longrightarrow> main mrg s w = render_step1_upload s w"
  by (simp add: main_def progress_map_simps)

lemma main_step2: "step s = 2 \<Longrightarrow> main mrg s w = render_step2_relations mrg s w"
  by (simp add: main_def progress_map_simps)

lemma main_step3: "step s = 3 \<Longrightarrow> main mrg s w = render_step3_visualize s w"
  by (simp add: main_def progress_map_simps)

lemma render_step2_crash:
  "select_join s w = Inl e \<Longrightarrow>
     render_step2_relations mrg s w = \<lparr>state = s, shown = [], outcome = Raised e\<rparr>"
  by (simp add: render_step2_relations_def)

lemma render_step2_merge:
  assumes "select_join s w = Inr j" "clicked w = Some Merge_Sheets"
  shows "render_step2_relations mrg s w =
    \<lparr>state = perform_merge mrg s j,
     shown = [Merge_Sheets, Back,
              if final_df (perform_merge mrg s j) = None then Skip_Merge else Next_Visualize],
     outcome = Completed\<rparr>"
  using assms by (simp add: render_step2_relations_def Let_def)

lemma render_step2_skip:
  assumes "select_join s w = Inr j" "clicked w = Some Skip_Merge" "final_df s = None"
  shows "render_step2_relations mrg s w =
    \<lparr>state = s\<lparr>step := 3, final_df := Some (js_left_df j)\<rparr>,
     shown = [Merge_Sheets, Back, Skip_Merge], outcome = Rerun\<rparr>"
  using assms by (simp add: render_step2_relations_def Let_def move_to_step_def)

lemma render_step2_idle:
  assumes "select_join s w = Inr j" "clicked w \<noteq> Some Merge_Sheets"
    "clicked w \<noteq> Some Skip_Merge \<or> final_df s \<noteq> None"
  shows "render_step2_relations mrg s w =
    \<lparr>state = s,
     shown = [Merge_Sheets, Back, if final_df s = None then Skip_Merge else Next_Visualize],
     outcome = Completed\<rparr>"
  using assms by (auto simp: render_step2_relations_def Let_def)

lemma perform_merge_fail:
  "mrg (js_left_df j) (js_right_df j) (js_left_on j) (js_right_on j) (js_how j) = Inl e \<Longrightarrow>
     perform_merge mrg s j = s"
  by (simp add: perform_merge_def)


lemma perform_merge_frame:
  "dataframes (perform_merge mrg s j) = dataframes s \<and> step (perform_merge mrg s j) = step s"
  by (simp add: perform_merge_def split: sum.splits)

lemma render_step1_frame:
  "step (state (render_step1_upload s w)) = step s \<and>
   final_df (state (render_step1_upload s w)) = final_df s"
  by (simp add: render_step1_upload_def load_excel_file_def Let_def
      split: option.splits excel_file.splits)

lemma render_step1_populated:
  "dataframes s \<noteq> [] \<Longrightarrow> state (render_step1_upload s w) = s"
  by (simp add: render_step1_upload_def Let_def split: option.splits)

lemma render_step1_outcome: "outcome (render_step1_upload s w) = Completed"
  by (simp add: render_step1_upload_def Let_def split: option.splits)

lemma render_step2_dataframes:
  "dataframes (state (render_step2_relations mrg s w)) = dataframes s"
  by (simp add: render_step2_relations_def perform_merge_def move_to_step_def Let_def
      split: sum.splits)

lemma render_step2_step:
  "step (state (render_step2_relations mrg s w)) = step s \<or>
   step (state (render_step2_relations mrg s w)) = 3"
  by (simp add: render_step2_relations_def perform_merge_def move_to_step_def Let_def
      split: sum.splits)

lemma render_step3_step:
  "step (state (render_step3_visualize s w)) = step s \<or>
   step (state (render_step3_visualize s w)) = 1"
  by (simp add: render_step3_visualize_def move_to_step_def)

lemma render_step3_idle:
  "clicked w \<noteq> Some Start_Over \<Longrightarrow>
     render_step3_visualize s w = \<lparr>state = s, shown = [Start_Over], outcome = Completed\<rparr>"
  by (simp add: render_step3_visualize_def)

text \<open>A run in which no button is pressed never asks for another run.\<close>

lemma no_rerun_without_click: "clicked w = None \<Longrightarrow> outcome (main mrg s w) \<noteq> Rerun"
  by (auto simp: main_def render_step1_outcome render_step2_relations_def
      render_step3_visualize_def Let_def split: option.splits sum.splits)

lemma main_step_range:
  "step (state (main mrg s w)) = step s \<or> step (state (main mrg s w)) \<in> {1, 2, 3}"
proof -
  consider "progress_map (step s) = None" | "step s = 1" | "step s = 2" | "step s = 3"
    | "progress_map (step s) \<noteq> None" "step s \<noteq> 1" "step s \<noteq> 2" "step s \<noteq> 3"
    by blast
  then show ?thesis
  proof cases
    case 1
    then show ?thesis by (simp add: main_def)
  next
    case 2
    then show ?thesis by (simp add: main_step1 render_step1_frame)
  next
    case 3
    then show ?thesis using render_step2_step[of mrg s w] by (auto simp: main_step2)
  next
    case 4
    then show ?thesis using render_step3_step[of s w] by (auto simp: main_step3)
  next
    case 5
    then show ?thesis by (auto simp: main_def)
  qed
qed

lemma callback_targets: "on_click b = Some n \<Longrightarrow> n \<in> {1, 2, 3}"
  by (cases b) auto

lemma run_callback_step:
  "step (run_callback s w) = step s \<or> step (run_callback s w) \<in> {1, 2, 3}"
  by (auto simp: run_callback_def move_to_step_def split: option.splits dest: callback_targets)

lemma run_script_step:
  "step (state (run_script mrg s w)) = step s \<or> step (state (run_script mrg s w)) \<in> {1, 2, 3}"
proof (cases "outcome (main mrg s w) = Rerun")
  case True
  then have "run_script mrg s w
      = main mrg (state (main mrg s w)) ((page_widgets s w)\<lparr>clicked := None\<rparr>)"
    by (simp add: run_script_def Let_def)
  then show ?thesis
    using main_step_range[of mrg s w]
      main_step_range[of mrg "state (main mrg s w)" "(page_widgets s w)\<lparr>clicked := None\<rparr>"]
    by auto
next
  case False
  then have "run_script mrg s w = main mrg s w"
    by (simp add: run_script_def Let_def)
  then show ?thesis using main_step_range[of mrg s w] by simp
qed

lemma handle_event_step:
  "step (state (handle_event mrg s w)) = step s \<or>
   step (state (handle_event mrg s w)) \<in> {1, 2, 3}"
  unfolding handle_event_def
  using run_callback_step[of s w] run_script_step[of mrg "run_callback s w" "page_widgets s w"]
  by auto

lemma reachable_step: "reachable mrg s \<Longrightarrow> step s \<in> {1, 2, 3}"
proof (induction rule: reachable.induct)
  case start
  show ?case by (simp add: init_session_def)
next
  case (action s w)
  then show ?case using handle_event_step[of mrg s w] by auto
qed

subsection \<open>One action\<close>

lemma merge_click:
  assumes "step s = 2" "clicked w = Some Merge_Sheets" "select_join s w = Inr j"
  shows "handle_event mrg s w =
    \<lparr>state = perform_merge mrg s j,
     shown = [Merge_Sheets, Back,
              if final_df (perform_merge mrg s j) = None then Skip_Merge else Next_Visualize],
     outcome = Completed\<rparr>"
proof -
  have "run_callback s w = s"
    using assms(2) by (simp add: run_callback_def)
  moreover have "main mrg s (page_widgets s w) =
    \<lparr>state = perform_merge mrg s j,
     shown = [Merge_Sheets, Back,
              if final_df (perform_merge mrg s j) = None then Skip_Merge else Next_Visualize],
     outcome = Completed\<rparr>"
    using assms
    by (simp add: main_step2 render_step2_merge select_join_page_widgets clicked_page_widgets)
  ultimately show ?thesis
    by (simp add: handle_event_def run_script_def Let_def)
qed

lemma skip_click:
  assumes "step s = 2" "clicked w = Some Skip_Merge" "final_df s = None"
    "select_join s w = Inr j"
  shows "handle_event mrg s w =
    \<lparr>state = s\<lparr>step := 3, final_df := Some (js_left_df j)\<rparr>, shown = [Start_Over],
     outcome = Completed\<rparr>"
proof -
  have cb: "run_callback s w = s"
    using assms(2) by (simp add: run_callback_def)
  have first: "main mrg s (page_widgets s w) =
    \<lparr>state = s\<lparr>step := 3, final_df := Some (js_left_df j)\<rparr>,
     shown = [Merge_Sheets, Back, Skip_Merge], outcome = Rerun\<rparr>"
    using assms
    by (simp add: main_step2 render_step2_skip select_join_page_widgets clicked_page_widgets)
  have second: "main mrg (s\<lparr>step := 3, final_df := Some (js_left_df j)\<rparr>)
      ((page_widgets s (page_widgets s w))\<lparr>clicked := None\<rparr>) =
    \<lparr>state = s\<lparr>step := 3, final_df := Some (js_left_df j)\<rparr>, shown = [Start_Over],
     outcome = Completed\<rparr>"
    by (simp add: main_step3 render_step3_idle)
  show ?thesis
    by (simp add: handle_event_def run_script_def Let_def cb first second)
qed

lemma start_over_click:
  assumes "step s = 3" "clicked w = Some Start_Over"
  shows "handle_event mrg s w = \<lparr>state = init_session, shown = [], outcome = Completed\<rparr>"
proof -
  have cb: "run_callback s w = s"
    using assms(2) by (simp add: run_callback_def)
  have pw: "page_widgets s w = w\<lparr>uploaded_file := None\<rparr>"
    using assms(1) by (simp add: page_widgets_def)
  have first: "main mrg s (w\<lparr>uploaded_file := None\<rparr>) =
    \<lparr>state = s\<lparr>step := 1, dataframes := [], final_df := None\<rparr>, shown = [Start_Over],
     outcome = Rerun\<rparr>"
    using assms by (simp add: main_step3 render_step3_visualize_def move_to_step_def)
  have eq: "s\<lparr>step := 1, dataframes := [], final_df := None\<rparr> = init_session"
    by (simp add: init_session_def)
  have second: "main mrg init_session
      ((page_widgets s (w\<lparr>uploaded_file := None\<rparr>))\<lparr>clicked := None\<rparr>) =
    \<lparr>state = init_session, shown = [], outcome = Completed\<rparr>"
    using assms(1)
    by (simp add: main_step1 init_session_def render_step1_upload_def page_widgets_def)
  show ?thesis
    by (simp add: handle_event_def run_script_def Let_def cb pw first eq second)
qed

lemma upload_event:
  assumes "step s = 1" "clicked w = None"
  shows "handle_event mrg s w = render_step1_upload s w"
proof -
  have "run_callback s w = s"
    using assms(2) by (simp add: run_callback_def)
  moreover have "page_widgets s w = w"
    using assms(1) by (simp add: page_widgets_def)
  ultimately show ?thesis
    using assms(1) by (simp add: handle_event_def run_script_def Let_def main_step1
        render_step1_outcome)
qed

lemma dict_set_nonempty: "dict_set d k v \<noteq> []"
  by (cases d) (auto split: if_splits)

lemma foldl_dict_set_nonempty:
  "d \<noteq> [] \<Longrightarrow> foldl (\<lambda>d (k, v). dict_set d k v) d kvs \<noteq> []"
proof (induction kvs arbitrary: d)
  case Nil
  then show ?case by simp
next
  case (Cons kv kvs)
  obtain k v where kv: "kv = (k, v)" by (cases kv)
  have "dict_set d k v \<noteq> []" by (rule dict_set_nonempty)
  then have "foldl (\<lambda>d (k, v). dict_set d k v) (dict_set d k v) kvs \<noteq> []"
    by (rule Cons.IH)
  then show ?case by (simp add: kv)
qed

lemma dict_of_nonempty: "kvs \<noteq> [] \<Longrightarrow> dict_of kvs \<noteq> []"
proof (cases kvs)
  case Nil
  then show "kvs \<noteq> [] \<Longrightarrow> dict_of kvs \<noteq> []" by simp
next
  case (Cons kv rest)
  obtain k v where kv: "kv = (k, v)" by (cases kv)
  have "foldl (\<lambda>d (k, v). dict_set d k v) [(k, v)] rest \<noteq> []"
    by (rule foldl_dict_set_nonempty) simp
  then show "dict_of kvs \<noteq> []" by (simp add: dict_of_def Cons kv)
qed

lemma selectbox_in: "selectbox opts pick = Some v \<Longrightarrow> v \<in> set opts"
  by (auto simp: selectbox_def split: list.splits option.splits if_splits)

lemma right_options_exclude: "lsheet \<notin> Some ` set (right_sheet_options names lsheet)"
  by (auto simp: right_sheet_options_def)

lemma select_join_sheets:
  assumes "select_join s w = Inr j"
  shows "js_left_sheet j = selectbox (map fst (dataframes s)) (left_sheet w)"
    and "js_right_sheet j =
      selectbox (right_sheet_options (map fst (dataframes s)) (js_left_sheet j)) (right_sheet w)"
    and "dict_get (dataframes s) (js_left_sheet j) = Inr (js_left_df j)"
    and "dict_get (dataframes s) (js_right_sheet j) = Inr (js_right_df j)"
  using assms by (auto simp: select_join_def Let_def split: sum.splits)

lemma dict_get_Some: "dict_get d k = Inr v \<Longrightarrow> \<exists>n. k = Some n \<and> map_of d n = Some v"
  by (auto simp: dict_get_def split: option.splits)

lemma enabled_skip:
  assumes "step s = 2" "clicked w = Some Skip_Merge" "enabled mrg s w"
  shows "final_df s = None \<and> (\<exists>j. select_join s w = Inr j)"
proof (cases "select_join s w")
  case (Inl e)
  then have "shown (main mrg s (w\<lparr>clicked := None\<rparr>)) = []"
    using assms(1) by (simp add: main_step2 render_step2_crash select_join_unclick)
  then show ?thesis using assms(2,3) by (simp add: enabled_def)
next
  case (Inr j)
  have "final_df s = None"
  proof (rule ccontr)
    assume "final_df s \<noteq> None"
    then have "shown (main mrg s (w\<lparr>clicked := None\<rparr>)) = [Merge_Sheets, Back, Next_Visualize]"
      using assms(1) Inr
      by (simp add: main_step2 render_step2_idle[where j=j] select_join_unclick)
    then show False using assms(2,3) by (simp add: enabled_def)
  qed
  then show ?thesis using Inr by simp
qed

lemma move_to_step_same: "step s = n \<Longrightarrow> move_to_step n s = s"
  by (auto simp: move_to_step_def)

lemma render_step2_no_skip:
  assumes "clicked w \<noteq> Some Skip_Merge \<or> final_df s \<noteq> None"
  shows "outcome (render_step2_relations mrg s w) \<noteq> Rerun
     \<and> step (state (render_step2_relations mrg s w)) = step s
     \<and> dataframes (state (render_step2_relations mrg s w)) = dataframes s"
  using assms
  by (auto simp: render_step2_relations_def perform_merge_def Let_def split: sum.splits)

lemma event_in_relate:
  assumes "step s = 2" and "clicked w \<noteq> Some Next_Visualize" and "clicked w \<noteq> Some Back"
    and "clicked w \<noteq> Some Skip_Merge \<or> final_df s \<noteq> None"
  shows "handle_event mrg s w = render_step2_relations mrg s (page_widgets s w)"
proof -
  have cb: "run_callback s w = s"
  proof (cases "clicked w")
    case None
    then show ?thesis by (simp add: run_callback_def)
  next
    case (Some b)
    with assms(1-3) show ?thesis
      by (cases b) (simp_all add: run_callback_def move_to_step_same)
  qed
  have "outcome (render_step2_relations mrg s (page_widgets s w)) \<noteq> Rerun"
    using render_step2_no_skip[of "page_widgets s w" s mrg] assms(4)
    by (simp add: clicked_page_widgets)
  then show ?thesis
    using assms(1) by (simp add: handle_event_def run_script_def Let_def cb main_step2)
qed

text \<open>
  With a single sheet the right-hand selectbox has no options and returns \<open>None\<close>, so
  the lookup at line 77 raises KeyError: the page of step 2 stops there, without buttons.
\<close>

lemma single_sheet_page_raises:
  assumes "dataframes s = [(n, df)]"
  shows "select_join s w = Inl KeyError"
    and "render_step2_relations mrg s w = \<lparr>state = s, shown = [], outcome = Raised KeyError\<rparr>"
proof -
  have l: "selectbox [n] (left_sheet w) = Some n"
    by (simp add: selectbox_def split: option.splits)
  have r: "selectbox (right_sheet_options [n] (Some n)) (right_sheet w) = None"
    by (simp add: right_sheet_options_def selectbox_def)
  have g: "dict_get [(n, df)] (Some n) = Inr df" "dict_get [(n, df)] None = Inl KeyError"
    by (simp_all add: dict_get_def)
  show "select_join s w = Inl KeyError"
    by (simp add: select_join_def assms l r g)
  then show "render_step2_relations mrg s w
      = \<lparr>state = s, shown = [], outcome = Raised KeyError\<rparr>"
    by (rule render_step2_crash)
qed

subsection \<open>The example sessions, evaluated\<close>

lemma select_join_relate_example:
  "select_join relate_example (click b) =
     Inr \<lparr>js_left_sheet = Some ''A'', js_left_df = left_example,
          js_right_sheet = Some ''B'', js_right_df = right_example,
          js_left_on = Some ''id'', js_right_on = Some ''id'', js_how = inner\<rparr>"
  by (simp add: select_join_def relate_example_def click_def no_input_def selectbox_def
      right_sheet_options_def dict_get_def left_example_def right_example_def)

lemma select_join_relate_mismatch:
  "select_join relate_mismatch (click b) =
     Inr \<lparr>js_left_sheet = Some ''A'', js_left_df = left_example,
          js_right_sheet = Some ''C'', js_right_df = text_keys,
          js_left_on = Some ''id'', js_right_on = Some ''id'', js_how = inner\<rparr>"
  by (simp add: select_join_def relate_mismatch_def click_def no_input_def selectbox_def
      right_sheet_options_def dict_get_def left_example_def text_keys_def)

lemma pd_merge_mismatch:
  "pd_merge left_example text_keys (Some ''id'') (Some ''id'') inner = Inl MergeError"
  by (simp add: pd_merge_def left_example_def text_keys_def incompatible_def key_kinds_def
      cell_at_def)

lemma select_join_cong:
  "left_sheet w = left_sheet w' \<Longrightarrow> right_sheet w = right_sheet w' \<Longrightarrow>
   left_on w = left_on w' \<Longrightarrow> right_on w = right_on w' \<Longrightarrow> how w = how w' \<Longrightarrow>
   select_join s w = select_join s w'"
  by (simp add: select_join_def Let_def split: sum.splits)

lemma clicked_click: "clicked (click b) = Some b"
  by (simp add: click_def)

lemma example_upload_loads:
  "handle_event mrg init_session example_upload =
     \<lparr>state = relate_example\<lparr>step := 1\<rparr>, shown = [Next_Build_Relationships],
      outcome = Completed\<rparr>"
proof -
  have "step init_session = 1" "clicked example_upload = None"
    by (simp_all add: init_session_def example_upload_def no_input_def)
  then have "handle_event mrg init_session example_upload
      = render_step1_upload init_session example_upload"
    by (rule upload_event)
  also have "\<dots> = \<lparr>state = relate_example\<lparr>step := 1\<rparr>, shown = [Next_Build_Relationships],
      outcome = Completed\<rparr>"
    by (simp add: render_step1_upload_def init_session_def example_upload_def no_input_def
        load_excel_file_def dict_of_def relate_example_def)
  finally show ?thesis .
qed

lemma example_next_click:
  "handle_event mrg (relate_example\<lparr>step := 1\<rparr>)
      (example_upload\<lparr>clicked := Some Next_Build_Relationships\<rparr>) =
     \<lparr>state = relate_example, shown = [Merge_Sheets, Back, Skip_Merge], outcome = Completed\<rparr>"
proof -
  let ?w = "example_upload\<lparr>clicked := Some Next_Build_Relationships\<rparr>"
  have cb: "run_callback (relate_example\<lparr>step := 1\<rparr>) ?w = relate_example"
    by (simp add: run_callback_def move_to_step_def relate_example_def)
  have pw: "page_widgets (relate_example\<lparr>step := 1\<rparr>) ?w = ?w"
    by (simp add: page_widgets_def)
  have sj: "select_join relate_example ?w = select_join relate_example (click Merge_Sheets)"
    by (rule select_join_cong) (simp_all add: example_upload_def click_def no_input_def)
  have st: "step relate_example = 2" "final_df relate_example = None"
    by (simp_all add: relate_example_def)
  have "render_step2_relations mrg relate_example ?w =
     \<lparr>state = relate_example,
      shown = [Merge_Sheets, Back, if final_df relate_example = None then Skip_Merge
                                   else Next_Visualize],
      outcome = Completed\<rparr>"
    by (rule render_step2_idle[OF sj[unfolded select_join_relate_example]]) simp_all
  then have "main mrg relate_example ?w =
     \<lparr>state = relate_example, shown = [Merge_Sheets, Back, Skip_Merge], outcome = Completed\<rparr>"
    by (simp add: main_step2 st)
  then show ?thesis
    by (simp add: handle_event_def run_script_def Let_def cb pw)
qed

lemma reachable_relate_example: "reachable mrg relate_example"
proof -
  have "enabled mrg init_session example_upload"
    by (simp add: enabled_def example_upload_def no_input_def)
  from reachable.action[OF reachable.start this]
  have r1: "reachable mrg (relate_example\<lparr>step := 1\<rparr>)"
    by (simp add: example_upload_loads)
  have "main mrg (relate_example\<lparr>step := 1\<rparr>) example_upload
      = render_step1_upload (relate_example\<lparr>step := 1\<rparr>) example_upload"
    by (simp add: main_step1)
  also have "shown \<dots> = [Next_Build_Relationships]"
    by (simp add: render_step1_upload_def example_upload_def no_input_def relate_example_def)
  finally have "enabled mrg (relate_example\<lparr>step := 1\<rparr>)
      (example_upload\<lparr>clicked := Some Next_Build_Relationships\<rparr>)"
    by (simp add: enabled_def example_upload_def no_input_def)
  from reachable.action[OF r1 this] show ?thesis
    by (simp add: example_next_click)
qed

lemma render_step2_other:
  assumes "clicked w \<noteq> Some Merge_Sheets" and "clicked w \<noteq> Some Skip_Merge"
  shows "state (render_step2_relations mrg s w) = s"
    and "outcome (render_step2_relations mrg s w) \<noteq> Rerun"
  using assms by (simp_all add: render_step2_relations_def Let_def split: sum.splits)

lemma reachable_loaded:
  assumes "sheets \<noteq> []"
  shows "reachable mrg \<lparr>step = 2, dataframes = dict_of sheets, final_df = None\<rparr>"
proof -
  let ?w = "no_input\<lparr>uploaded_file := Some (Workbook sheets)\<rparr>"
  let ?s1 = "\<lparr>step = 1, dataframes = dict_of sheets, final_df = None\<rparr>"
  let ?s2 = "\<lparr>step = 2, dataframes = dict_of sheets, final_df = None\<rparr>"
  let ?next = "?w\<lparr>clicked := Some Next_Build_Relationships\<rparr>"
  have full: "dict_of sheets \<noteq> []"
    by (rule dict_of_nonempty[OF assms])
  have "enabled mrg init_session ?w"
    by (simp add: enabled_def no_input_def)
  moreover have "handle_event mrg init_session ?w = render_step1_upload init_session ?w"
    by (rule upload_event) (simp_all add: init_session_def no_input_def)
  moreover have "state (render_step1_upload init_session ?w) = ?s1"
    by (simp add: render_step1_upload_def init_session_def load_excel_file_def Let_def)
  ultimately have r1: "reachable mrg ?s1"
    using reachable.action[OF reachable.start, of mrg ?w] by simp
  have "shown (main mrg ?s1 (?next\<lparr>clicked := None\<rparr>)) = [Next_Build_Relationships]"
    using full by (simp add: main_step1 render_step1_upload_def Let_def)
  then have en: "enabled mrg ?s1 ?next"
    by (simp add: enabled_def)
  have cb: "run_callback ?s1 ?next = ?s2"
    by (simp add: run_callback_def move_to_step_def)
  have pw: "page_widgets ?s1 ?next = ?next"
    by (simp add: page_widgets_def)
  have "main mrg ?s2 ?next = render_step2_relations mrg ?s2 ?next"
    by (simp add: main_step2)
  moreover have "state (render_step2_relations mrg ?s2 ?next) = ?s2"
    "outcome (render_step2_relations mrg ?s2 ?next) \<noteq> Rerun"
    by (rule render_step2_other; simp)+
  ultimately have "state (handle_event mrg ?s1 ?next) = ?s2"
    by (simp add: handle_event_def run_script_def Let_def cb pw)
  with reachable.action[OF r1 en] show ?thesis
    by simp
qed

lemma select_join_relate_three:
  "select_join relate_three (click b) =
     Inr \<lparr>js_left_sheet = Some ''A'', js_left_df = left_example,
          js_right_sheet = Some ''B'', js_right_df = right_example,
          js_left_on = Some ''id'', js_right_on = Some ''id'', js_how = inner\<rparr>"
  by (simp add: select_join_def relate_three_def click_def no_input_def selectbox_def
      right_sheet_options_def dict_get_def left_example_def right_example_def)

lemma select_join_stale_session:
  "select_join stale_session retry_with_c =
     Inr \<lparr>js_left_sheet = Some ''A'', js_left_df = left_example,
          js_right_sheet = Some ''C'', js_right_df = text_keys,
          js_left_on = Some ''id'', js_right_on = Some ''id'', js_how = inner\<rparr>"
  by (simp add: select_join_def stale_session_def retry_with_c_def no_input_def selectbox_def
      right_sheet_options_def dict_get_def left_example_def text_keys_def)

lemma reachable_stale_session: "reachable pd_merge stale_session"
proof -
  let ?sheets = "[(''A'', left_example), (''B'', right_example), (''C'', text_keys)]"
  let ?j = "\<lparr>js_left_sheet = Some ''A'', js_left_df = left_example,
          js_right_sheet = Some ''B'', js_right_df = right_example,
          js_left_on = Some ''id'', js_right_on = Some ''id'', js_how = inner\<rparr>"
  have "dict_of ?sheets = ?sheets"
    by (simp add: dict_of_def)
  with reachable_loaded[of ?sheets pd_merge] have r: "reachable pd_merge relate_three"
    by (simp add: relate_three_def)
  have st: "step relate_three = 2" "final_df relate_three = None"
    by (simp_all add: relate_three_def)
  have sj: "select_join relate_three ((click Merge_Sheets)\<lparr>clicked := None\<rparr>) = Inr ?j"
    by (simp only: select_join_unclick select_join_relate_three)
  have "render_step2_relations pd_merge relate_three ((click Merge_Sheets)\<lparr>clicked := None\<rparr>) =
     \<lparr>state = relate_three,
      shown = [Merge_Sheets, Back, if final_df relate_three = None then Skip_Merge
                                   else Next_Visualize],
      outcome = Completed\<rparr>"
    by (rule render_step2_idle[OF sj]) simp_all
  then have en: "enabled pd_merge relate_three (click Merge_Sheets)"
    by (simp add: enabled_def clicked_click main_step2 st)
  have "perform_merge pd_merge relate_three ?j = stale_session"
    by (simp add: perform_merge_def pd_merge_examples relate_three_def stale_session_def)
  then have "state (handle_event pd_merge relate_three (click Merge_Sheets)) = stale_session"
    by (simp add: merge_click[OF st(1) clicked_click select_join_relate_three])
  with reachable.action[OF r en] show ?thesis
    by simp
qed

subsection \<open>The claims about the wizard\<close>

text \<open>
  Claim C2, as amended. When the user presses "Merge Sheets" in step 2 and the merge
  raises, the exception is caught and the session is left exactly as it was: the failed
  merge does not set the final table, so an unset final table stays unset and a final
  table stored by an earlier successful merge is kept; the step stays 2, the page is drawn
  to its end and the merge button is on it again, so the user can change the join and
  press it once more.
\<close>

theorem merge_failure_leaves_state:
  assumes "step s = 2" and "clicked w = Some Merge_Sheets" and "select_join s w = Inr j"
    and "mrg (js_left_df j) (js_right_df j) (js_left_on j) (js_right_on j) (js_how j) = Inl e"
  shows "state (handle_event mrg s w) = s
     \<and> final_df (state (handle_event mrg s w)) = final_df s
     \<and> (final_df s = None \<longrightarrow> final_df (state (handle_event mrg s w)) = None)
     \<and> step (state (handle_event mrg s w)) = 2
     \<and> outcome (handle_event mrg s w) = Completed
     \<and> Merge_Sheets \<in> set (shown (handle_event mrg s w))"
  using assms by (simp add: merge_click perform_merge_fail)

theorem merge_failure_leaves_state_witness:
  "state (handle_event pd_merge relate_mismatch (click Merge_Sheets)) = relate_mismatch
   \<and> final_df (state (handle_event pd_merge relate_mismatch (click Merge_Sheets))) = None
   \<and> step (state (handle_event pd_merge relate_mismatch (click Merge_Sheets))) = 2"
proof -
  have "step relate_mismatch = 2" "final_df relate_mismatch = None"
    by (simp_all add: relate_mismatch_def)
  moreover note clicked_click[of Merge_Sheets] select_join_relate_mismatch[of Merge_Sheets]
  ultimately show ?thesis
    using merge_failure_leaves_state[of relate_mismatch "click Merge_Sheets" _ pd_merge MergeError]
    by (simp add: pd_merge_mismatch)
qed

text \<open>
  Claim C2 as it was stated, that the final table is unset after every failed merge, does
  not hold. After a successful merge of \<open>A\<close> and \<open>B\<close>, a session that user actions lead
  to, a merge of \<open>A\<close> with \<open>C\<close> raises, and the final table still holds the result of the
  first merge, with "Next: Visualize" on the page.
\<close>

theorem merge_failure_unset_counterexample:
  "reachable pd_merge stale_session
   \<and> step stale_session = 2
   \<and> clicked retry_with_c = Some Merge_Sheets
   \<and> select_join stale_session retry_with_c =
       Inr \<lparr>js_left_sheet = Some ''A'', js_left_df = left_example,
            js_right_sheet = Some ''C'', js_right_df = text_keys,
            js_left_on = Some ''id'', js_right_on = Some ''id'', js_how = inner\<rparr>
   \<and> pd_merge left_example text_keys (Some ''id'') (Some ''id'') inner = Inl MergeError
   \<and> final_df (state (handle_event pd_merge stale_session retry_with_c)) = Some joined_example
   \<and> final_df (state (handle_event pd_merge stale_session retry_with_c)) \<noteq> None
   \<and> Next_Visualize \<in> set (shown (handle_event pd_merge stale_session retry_with_c))"
proof -
  let ?j = "\<lparr>js_left_sheet = Some ''A'', js_left_df = left_example,
          js_right_sheet = Some ''C'', js_right_df = text_keys,
          js_left_on = Some ''id'', js_right_on = Some ''id'', js_how = inner\<rparr>"
  have st: "step stale_session = 2" "final_df stale_session = Some joined_example"
    by (simp_all add: stale_session_def)
  have c: "clicked retry_with_c = Some Merge_Sheets"
    by (simp add: retry_with_c_def)
  have "perform_merge pd_merge stale_session ?j = stale_session"
    by (rule perform_merge_fail[of pd_merge ?j MergeError]) (simp add: pd_merge_mismatch)
  then have "handle_event pd_merge stale_session retry_with_c =
      \<lparr>state = stale_session, shown = [Merge_Sheets, Back, Next_Visualize],
       outcome = Completed\<rparr>"
    by (simp add: merge_click[OF st(1) c select_join_stale_session] st(2))
  with reachable_stale_session st c select_join_stale_session pd_merge_mismatch
  show ?thesis by simp
qed

text \<open>
  Claim C3. The options of the right-hand sheet selectbox never contain the sheet that the
  left-hand selectbox returned, whatever the session state and whatever was picked; hence
  the right sheet of a join that the page configures differs from its left sheet.
\<close>
theorem self_join_prevention:
  "lsheet \<notin> Some ` set (right_sheet_options (map fst (dataframes s)) lsheet)
   \<and> (select_join s w = Inr j \<longrightarrow>
        js_left_sheet j = selectbox (map fst (dataframes s)) (left_sheet w)
        \<and> js_right_sheet j
             \<in> Some ` set (right_sheet_options (map fst (dataframes s)) (js_left_sheet j))
        \<and> js_right_sheet j \<noteq> js_left_sheet j)"
proof (intro conjI impI)
  show "lsheet \<notin> Some ` set (right_sheet_options (map fst (dataframes s)) lsheet)"
    by (rule right_options_exclude)
next
  assume j: "select_join s w = Inr j"
  show "js_left_sheet j = selectbox (map fst (dataframes s)) (left_sheet w)"
    by (rule select_join_sheets(1)[OF j])
  from dict_get_Some[OF select_join_sheets(4)[OF j]] obtain n where
    n: "js_right_sheet j = Some n" by blast
  with select_join_sheets(2)[OF j]
  have "n \<in> set (right_sheet_options (map fst (dataframes s)) (js_left_sheet j))"
    by (simp add: selectbox_in)
  with n show
    in_opts: "js_right_sheet j
       \<in> Some ` set (right_sheet_options (map fst (dataframes s)) (js_left_sheet j))"
    by simp
  with right_options_exclude[of "js_left_sheet j" "map fst (dataframes s)"]
  show "js_right_sheet j \<noteq> js_left_sheet j"
    by auto
qed

theorem self_join_prevention_witness:
  "right_sheet_options (map fst (dataframes relate_example)) (Some ''A'') = [''B'']
   \<and> Some ''A'' \<notin> Some ` set (right_sheet_options (map fst (dataframes relate_example)) (Some ''A''))
   \<and> (\<exists>j. select_join relate_example (click Merge_Sheets) = Inr j
          \<and> js_left_sheet j = Some ''A'' \<and> js_right_sheet j = Some ''B''
          \<and> js_right_sheet j \<noteq> js_left_sheet j)"
proof -
  let ?j = "\<lparr>js_left_sheet = Some ''A'', js_left_df = left_example,
          js_right_sheet = Some ''B'', js_right_df = right_example,
          js_left_on = Some ''id'', js_right_on = Some ''id'', js_how = inner\<rparr>"
  have opts: "right_sheet_options (map fst (dataframes relate_example)) (Some ''A'') = [''B'']"
    by (simp add: right_sheet_options_def relate_example_def)
  have sj: "select_join relate_example (click Merge_Sheets) = Inr ?j"
    by (rule select_join_relate_example)
  note inst = self_join_prevention[of "Some ''A''" relate_example "click Merge_Sheets" ?j]
  from inst have "Some ''A''
      \<notin> Some ` set (right_sheet_options (map fst (dataframes relate_example)) (Some ''A''))"
    by (rule conjunct1)
  moreover from inst sj have "js_right_sheet ?j \<noteq> js_left_sheet ?j"
    by blast
  ultimately show ?thesis using opts sj by simp
qed

text \<open>
  Claim C4. When the user presses "Skip Merge & Use Base Sheet" on a page of step 2 that
  shows it, the final table becomes the table stored under the selected left sheet, as it
  is, the step becomes 3, and nothing else in the session changes; the merge function has
  no part in the result.
\<close>
theorem skip_merge_uses_left_table:
  assumes "step s = 2" and "clicked w = Some Skip_Merge" and "enabled mrg s w"
  shows "\<exists>l left_df.
           selectbox (map fst (dataframes s)) (left_sheet w) = Some l
         \<and> map_of (dataframes s) l = Some left_df
         \<and> state (handle_event mrg s w) = s\<lparr>step := 3, final_df := Some left_df\<rparr>
         \<and> final_df (state (handle_event mrg s w)) = Some left_df
         \<and> step (state (handle_event mrg s w)) = 3
         \<and> dataframes (state (handle_event mrg s w)) = dataframes s"
proof -
  from enabled_skip[OF assms] obtain j where
    unset: "final_df s = None" and j: "select_join s w = Inr j"
    by blast
  from dict_get_Some[OF select_join_sheets(3)[OF j]] obtain l where
    l: "js_left_sheet j = Some l" "map_of (dataframes s) l = Some (js_left_df j)"
    by blast
  have "selectbox (map fst (dataframes s)) (left_sheet w) = Some l"
    using select_join_sheets(1)[OF j] l(1) by simp
  moreover have "state (handle_event mrg s w) = s\<lparr>step := 3, final_df := Some (js_left_df j)\<rparr>"
    by (simp add: skip_click[OF assms(1,2) unset j])
  ultimately show ?thesis using l(2) by simp
qed

theorem skip_merge_uses_left_table_witness:
  "state (handle_event pd_merge relate_example (click Skip_Merge))
     = \<lparr>step = 3, dataframes = [(''A'', left_example), (''B'', right_example)],
        final_df = Some left_example\<rparr>"
proof -
  have st: "step relate_example = 2" "final_df relate_example = None"
    by (simp_all add: relate_example_def)
  have sj: "select_join relate_example ((click Skip_Merge)\<lparr>clicked := None\<rparr>)
      = select_join relate_example (click Skip_Merge)"
    by (rule select_join_unclick)
  have "render_step2_relations pd_merge relate_example ((click Skip_Merge)\<lparr>clicked := None\<rparr>) =
     \<lparr>state = relate_example,
      shown = [Merge_Sheets, Back, if final_df relate_example = None then Skip_Merge
                                   else Next_Visualize],
      outcome = Completed\<rparr>"
    by (rule render_step2_idle[OF sj[unfolded select_join_relate_example]]) simp_all
  then have en: "enabled pd_merge relate_example (click Skip_Merge)"
    by (simp add: enabled_def clicked_click main_step2 st)
  have sel: "selectbox (map fst (dataframes relate_example)) (left_sheet (click Skip_Merge))
      = Some ''A''"
    by (simp add: selectbox_def relate_example_def click_def no_input_def)
  have look: "map_of (dataframes relate_example) ''A'' = Some left_example"
    by (simp add: relate_example_def)
  from skip_merge_uses_left_table[OF st(1) clicked_click en] sel look
  have "state (handle_event pd_merge relate_example (click Skip_Merge))
      = relate_example\<lparr>step := 3, final_df := Some left_example\<rparr>"
    by auto
  then show ?thesis by (simp add: relate_example_def)
qed

text \<open>
  Claim C5. Pressing "Start Over" in step 3 puts the session back to its first values:
  no tables, no final table, step 1. A workbook uploaded after that is loaded: the store
  then holds its sheets, and is not empty when the workbook has a sheet.
\<close>
theorem reset_completeness:
  assumes "step s = 3" and "clicked w = Some Start_Over"
  shows "state (handle_event mrg s w) = init_session
     \<and> dataframes (state (handle_event mrg s w)) = []
     \<and> final_df (state (handle_event mrg s w)) = None
     \<and> step (state (handle_event mrg s w)) = 1
     \<and> (uploaded_file w' = Some (Workbook sheets) \<longrightarrow> clicked w' = None \<longrightarrow>
          dataframes (state (handle_event mrg (state (handle_event mrg s w)) w')) = dict_of sheets
          \<and> (sheets \<noteq> [] \<longrightarrow>
               dataframes (state (handle_event mrg (state (handle_event mrg s w)) w')) \<noteq> []))"
proof -
  have reset: "state (handle_event mrg s w) = init_session"
    by (simp add: start_over_click[OF assms])
  have "dataframes (state (handle_event mrg init_session w')) = dict_of sheets"
    if "uploaded_file w' = Some (Workbook sheets)" "clicked w' = None"
  proof -
    have "handle_event mrg init_session w' = render_step1_upload init_session w'"
      by (rule upload_event) (simp_all add: init_session_def that)
    then show ?thesis
      by (simp add: render_step1_upload_def init_session_def load_excel_file_def that Let_def)
  qed
  then show ?thesis
    by (simp add: reset init_session_def[symmetric] dict_of_nonempty)
       (simp add: init_session_def)
qed

theorem reset_completeness_witness:
  "state (handle_event pd_merge (relate_example\<lparr>step := 3, final_df := Some left_example\<rparr>)
       (click Start_Over)) = \<lparr>step = 1, dataframes = [], final_df = None\<rparr>
   \<and> dataframes (state (handle_event pd_merge
        (state (handle_event pd_merge (relate_example\<lparr>step := 3, final_df := Some left_example\<rparr>)
           (click Start_Over)))
        example_upload)) = [(''A'', left_example), (''B'', right_example)]"
proof -
  let ?s = "relate_example\<lparr>step := 3, final_df := Some left_example\<rparr>"
  let ?sheets = "[(''A'', left_example), (''B'', right_example)]"
  have "step ?s = 3"
    by simp
  note inst = reset_completeness[OF this clicked_click, of pd_merge example_upload ?sheets]
  have up: "uploaded_file example_upload = Some (Workbook ?sheets)"
    "clicked example_upload = None"
    by (simp_all add: example_upload_def no_input_def)
  from inst have "state (handle_event pd_merge ?s (click Start_Over)) = init_session"
    by (rule conjunct1)
  moreover from inst up
  have "dataframes (state (handle_event pd_merge (state (handle_event pd_merge ?s
      (click Start_Over))) example_upload)) = dict_of ?sheets"
    by blast
  moreover have "dict_of ?sheets = ?sheets"
    by (simp add: dict_of_def)
  ultimately show ?thesis
    by (simp add: init_session_def)
qed

text \<open>
  Claim C6. Once the store holds tables, a run of the upload page leaves the session as it
  is, whatever file the uploader holds. In particular, after a first workbook with at least
  one sheet has been loaded, a second upload leaves the store with the sheets of the
  first.
\<close>
theorem load_idempotence:
  "(dataframes s \<noteq> [] \<longrightarrow>
      state (render_step1_upload s w) = s
      \<and> (step s = 1 \<longrightarrow> clicked w = None \<longrightarrow> state (handle_event mrg s w) = s))
   \<and> (dataframes s0 = [] \<longrightarrow> uploaded_file w1 = Some (Workbook sheets) \<longrightarrow> sheets \<noteq> [] \<longrightarrow>
        dataframes (state (render_step1_upload s0 w1)) = dict_of sheets
        \<and> dataframes (state (render_step1_upload (state (render_step1_upload s0 w1)) w2))
            = dataframes (state (render_step1_upload s0 w1)))"
proof (intro conjI impI)
  assume "dataframes s \<noteq> []"
  then show same: "state (render_step1_upload s w) = s"
    by (rule render_step1_populated)
  assume "step s = 1" "clicked w = None"
  then show "state (handle_event mrg s w) = s"
    by (simp add: upload_event same)
next
  assume a: "dataframes s0 = []" "uploaded_file w1 = Some (Workbook sheets)" "sheets \<noteq> []"
  then show first: "dataframes (state (render_step1_upload s0 w1)) = dict_of sheets"
    by (simp add: render_step1_upload_def load_excel_file_def Let_def)
  from a(3) have "dict_of sheets \<noteq> []"
    by (rule dict_of_nonempty)
  with first have "dataframes (state (render_step1_upload s0 w1)) \<noteq> []"
    by simp
  then show "dataframes (state (render_step1_upload (state (render_step1_upload s0 w1)) w2))
            = dataframes (state (render_step1_upload s0 w1))"
    by (simp add: render_step1_populated)
qed

theorem load_idempotence_witness:
  "state (render_step1_upload (relate_example\<lparr>step := 1\<rparr>)
      (no_input\<lparr>uploaded_file := Some (Workbook [(''Z'', text_keys)])\<rparr>))
     = relate_example\<lparr>step := 1\<rparr>
   \<and> dataframes (state (render_step1_upload (state (render_step1_upload init_session
        example_upload)) (no_input\<lparr>uploaded_file := Some (Workbook [(''Z'', text_keys)])\<rparr>)))
     = [(''A'', left_example), (''B'', right_example)]"
proof -
  let ?w2 = "no_input\<lparr>uploaded_file := Some (Workbook [(''Z'', text_keys)])\<rparr>"
  let ?sheets = "[(''A'', left_example), (''B'', right_example)]"
  note inst = load_idempotence[of "relate_example\<lparr>step := 1\<rparr>" ?w2 pd_merge init_session
      example_upload ?sheets ?w2]
  have pop: "dataframes (relate_example\<lparr>step := 1\<rparr>) \<noteq> []"
    by (simp add: relate_example_def)
  have up: "dataframes init_session = []" "uploaded_file example_upload = Some (Workbook ?sheets)"
    "?sheets \<noteq> []"
    by (simp_all add: init_session_def example_upload_def no_input_def)
  from inst pop have "state (render_step1_upload (relate_example\<lparr>step := 1\<rparr>) ?w2)
      = relate_example\<lparr>step := 1\<rparr>"
    by blast
  moreover from inst up
  have "dataframes (state (render_step1_upload (state (render_step1_upload init_session
        example_upload)) ?w2)) = dict_of ?sheets"
    by simp
  moreover have "dict_of ?sheets = ?sheets"
    by (simp add: dict_of_def)
  ultimately show ?thesis by simp
qed

text \<open>
  Claim C8. A merge never changes the stored tables: neither the merge step itself, nor
  the page of step 2 as a whole, nor the handling of a press on "Merge Sheets", whether
  the merge succeeds or raises.
\<close>
theorem merge_keeps_store:
  "dataframes (perform_merge mrg s j) = dataframes s
   \<and> dataframes (state (render_step2_relations mrg s w)) = dataframes s
   \<and> (step s = 2 \<longrightarrow> clicked w = Some Merge_Sheets \<longrightarrow>
        dataframes (state (handle_event mrg s w)) = dataframes s)"
proof (intro conjI impI)
  show "dataframes (perform_merge mrg s j) = dataframes s"
    by (simp add: perform_merge_frame)
  show "dataframes (state (render_step2_relations mrg s w)) = dataframes s"
    by (rule render_step2_dataframes)
  assume "step s = 2" "clicked w = Some Merge_Sheets"
  then have "handle_event mrg s w = render_step2_relations mrg s (page_widgets s w)"
    by (simp add: event_in_relate)
  then show "dataframes (state (handle_event mrg s w)) = dataframes s"
    by (simp add: render_step2_dataframes)
qed

theorem merge_keeps_store_witness:
  "dataframes (state (handle_event pd_merge relate_example (click Merge_Sheets)))
     = [(''A'', left_example), (''B'', right_example)]
   \<and> dataframes (state (handle_event pd_merge relate_mismatch (click Merge_Sheets)))
     = [(''A'', left_example), (''C'', text_keys)]"
proof -
  have "step relate_example = 2" "step relate_mismatch = 2"
    by (simp_all add: relate_example_def relate_mismatch_def)
  with merge_keeps_store[of pd_merge relate_example _ "click Merge_Sheets"]
    merge_keeps_store[of pd_merge relate_mismatch _ "click Merge_Sheets"]
  have "dataframes (state (handle_event pd_merge relate_example (click Merge_Sheets)))
      = dataframes relate_example"
    "dataframes (state (handle_event pd_merge relate_mismatch (click Merge_Sheets)))
      = dataframes relate_mismatch"
    by (simp_all add: clicked_click)
  then show ?thesis
    by (simp add: relate_example_def relate_mismatch_def)
qed



text \<open>
  Claim C10. The step starts at 1, every callback targets 1, 2 or 3, and an action either
  keeps the step or moves it to 1, 2 or 3. So in every session state that user actions
  can lead to the step is 1, 2 or 3, the progress bar finds its entry, and the router
  shows one of the three pages.
\<close>
theorem step_in_range:
  "step init_session = 1
   \<and> (on_click b = Some n \<longrightarrow> n \<in> {1, 2, 3})
   \<and> (step (state (handle_event mrg s w)) = step s
        \<or> step (state (handle_event mrg s w)) \<in> {1, 2, 3})
   \<and> (reachable mrg s \<longrightarrow>
        step s \<in> {1, 2, 3}
        \<and> progress_map (step s) \<noteq> None
        \<and> main mrg s w = (if step s = 1 then render_step1_upload s w
                          else if step s = 2 then render_step2_relations mrg s w
                          else render_step3_visualize s w))"
proof (intro conjI impI)
  show "step init_session = 1"
    by (simp add: init_session_def)
  show "step (state (handle_event mrg s w)) = step s
        \<or> step (state (handle_event mrg s w)) \<in> {1, 2, 3}"
    by (rule handle_event_step)
next
  assume "on_click b = Some n"
  then show "n \<in> {1, 2, 3}" by (rule callback_targets)
next
  assume "reachable mrg s"
  then have range: "step s \<in> {1, 2, 3}" by (rule reachable_step)
  then show "step s \<in> {1, 2, 3}" .
  from range show "progress_map (step s) \<noteq> None"
    by (auto simp: progress_map_simps)
  from range show "main mrg s w = (if step s = 1 then render_step1_upload s w
                          else if step s = 2 then render_step2_relations mrg s w
                          else render_step3_visualize s w)"
    by (auto simp: main_step1 main_step2 main_step3)
qed

theorem step_in_range_witness:
  "reachable pd_merge relate_example \<and> step relate_example = 2
   \<and> progress_map (step relate_example) = Some 66
   \<and> main pd_merge relate_example no_input = render_step2_relations pd_merge relate_example no_input"
proof -
  have r: "reachable pd_merge relate_example"
    by (rule reachable_relate_example)
  have st: "step relate_example = 2"
    by (simp add: relate_example_def)
  from step_in_range[of Back 1 pd_merge relate_example no_input] r
  have "main pd_merge relate_example no_input =
      (if step relate_example = 1 then render_step1_upload relate_example no_input
       else if step relate_example = 2 then render_step2_relations pd_merge relate_example no_input
       else render_step3_visualize relate_example no_input)"
    by blast
  with r st show ?thesis
    by (simp add: progress_map_simps)
qed

end
